theory Spec2Isabelle
  imports Complex_Main "HOL-Library.AList" "HOL-Library.Sublist" "HOL-Library.Word"
begin

section \<open>Python values and exceptions\<close>

text \<open>
  The backend is Python. Values that travel through JSON (HTTP bodies, the Redis cache,
  which is configured with the JSON serializer) are modelled by \<open>json\<close>; Python's
  \<open>None\<close> is \<open>JNull\<close>. A dict is an association list, read with \<open>map_of\<close>
  and written with \<open>AList.update\<close>. JSON numbers are integers here: floating-point JSON
  numbers are outside the model.
\<close>

datatype json =
    JNull
  | JBool bool
  | JInt int
  | JStr string
  | JArr "json list"
  | JObj "(string \<times> json) list"

text \<open>Python truthiness (\<open>if x:\<close>, \<open>not x\<close>, \<open>x and y\<close>).\<close>

fun truthy :: "json \<Rightarrow> bool" where
  "truthy JNull = False"
| "truthy (JBool b) = b"
| "truthy (JInt n) = (n \<noteq> 0)"
| "truthy (JStr s) = (s \<noteq> [])"
| "truthy (JArr xs) = (xs \<noteq> [])"
| "truthy (JObj kvs) = (kvs \<noteq> [])"

text \<open>
  The exceptions the modelled code can meet. \<open>ConnectionInterrupted\<close> is what the Redis
  cache client raises when the server cannot be reached; the \<open>Req...\<close> constructors are
  the exceptions of the HTTP client; \<open>KISTokenError\<close> is the repository's own exception
  and carries which of its messages it was raised with: no access token in the response,
  request timeout, connection error, permission error (status 403), too many requests
  (status 429), another HTTP error, another request failure, and the unexpected error of
  the last \<open>except Exception\<close> clause, the last three with the exception they wrap.
\<close>

datatype exn =
    ValueError
  | TypeError
  | AttributeError
  | KeyError
  | OverflowError
  | JSONDecodeError
  | ConnectionInterrupted
  | ReqTimeout
  | ReqConnectionError
  | ReqHTTPError nat
  | ReqJSONDecodeError
  | ReqOther
  | KISTokenError kis_msg
and kis_msg =
    NoAccessToken
  | TokenTimeout
  | TokenConnection
  | TokenForbidden
  | TokenRateLimited
  | TokenHTTP exn
  | TokenRequestFailed exn
  | TokenUnexpected exn

section \<open>accounts/redis_otp.py: hashing\<close>

text \<open>
  \<open>hashlib.pbkdf2_hmac\<close> is a library function and a parameter of the model: it is
  called with the hash name, the password bytes, the salt bytes and the iteration count
  and returns bytes. Strings are byte strings, so \<open>encode('utf-8')\<close> is the identity.
  \<open>bytes.hex()\<close> is modelled concretely. The salt \<open>secrets.token_hex(16)\<close> is an
  argument of \<open>otp_hash\<close> (the source's \<open>_hash\<close>).
\<close>

type_synonym kdf = "string \<Rightarrow> string \<Rightarrow> string \<Rightarrow> nat \<Rightarrow> 8 word list"

definition hex_digit :: "nat \<Rightarrow> char" where
  "hex_digit n = ''0123456789abcdef'' ! (n mod 16)"

definition hex_byte :: "8 word \<Rightarrow> string" where
  "hex_byte b = [hex_digit (unat b div 16), hex_digit (unat b mod 16)]"

definition hex :: "8 word list \<Rightarrow> string" where
  "hex bs = concat (map hex_byte bs)"

definition otp_hash :: "kdf \<Rightarrow> string \<Rightarrow> string \<Rightarrow> string" where
  "otp_hash pbkdf2_hmac salt code =
     (let hash_value = hex (pbkdf2_hmac ''sha256'' code salt 100000)
      in hash_value @ '':'' @ salt)"

text \<open>\<open>s.split(sep, 1)\<close>: at most one split, at the first separator.\<close>

definition split1 :: "char \<Rightarrow> string \<Rightarrow> string list" where
  "split1 sep s =
     (if sep \<in> set s
      then [takeWhile (\<lambda>c. c \<noteq> sep) s, tl (dropWhile (\<lambda>c. c \<noteq> sep) s)]
      else [s])"

text \<open>
  The body of the \<open>try\<close> in \<open>_verify_hash\<close>: a value that is not a string has no
  \<open>split\<close> (AttributeError); unpacking a one-element list into two names is a
  ValueError.
\<close>

definition verify_hash_try :: "kdf \<Rightarrow> string \<Rightarrow> json \<Rightarrow> exn + bool" where
  "verify_hash_try pbkdf2_hmac code stored_hash =
     (case stored_hash of
        JStr s \<Rightarrow>
          (case split1 CHR '':'' s of
             [hash_part, salt] \<Rightarrow>
               (let computed_hash = hex (pbkdf2_hmac ''sha256'' code salt 100000)
                in Inr (computed_hash = hash_part))
           | _ \<Rightarrow> Inl ValueError)
      | _ \<Rightarrow> Inl AttributeError)"

text \<open>\<open>except (ValueError, AttributeError): return False\<close>; anything else propagates.\<close>

definition verify_hash :: "kdf \<Rightarrow> string \<Rightarrow> json \<Rightarrow> exn + bool" where
  "verify_hash pbkdf2_hmac code stored_hash =
     (case verify_hash_try pbkdf2_hmac code stored_hash of
        Inl e \<Rightarrow> (if e = ValueError \<or> e = AttributeError then Inr False else Inl e)
      | Inr b \<Rightarrow> Inr b)"

section \<open>accounts/redis_otp.py: issuing and verifying\<close>

text \<open>
  The value cached under an OTP key is a Python string. \<open>JsonText v\<close> is the string
  \<open>json.dumps(v)\<close>, identified with the value it denotes (so \<open>json.loads\<close> of it is
  \<open>v\<close>); \<open>NotJson s\<close> is a string that is not a JSON document. A cache entry is the
  value together with the timeout given to \<open>cache.set\<close> (seconds; None: no expiry).
  \<open>cache.ttl\<close> reads the timeout back (0 for a missing key); time does not pass inside one
  call.
\<close>

datatype jtext = JsonText json | NotJson string

type_synonym otp_cache = "string \<rightharpoonup> jtext \<times> int option"


definition cache_set :: "otp_cache \<Rightarrow> string \<Rightarrow> jtext \<Rightarrow> int option \<Rightarrow> otp_cache" where
  "cache_set c key v timeout = c(key \<mapsto> (v, timeout))"



definition json_dumps :: "json \<Rightarrow> jtext" where
  "json_dumps v = JsonText v"



definition DEFAULT_TTL_MINUTES :: int where
  "DEFAULT_TTL_MINUTES = 10"


definition generate_key :: "string \<Rightarrow> string \<Rightarrow> string" where
  "generate_key email purpose = ''otp:'' @ email @ '':'' @ purpose"

text \<open>\<open>f"{n:06d}"\<close> for a natural number: its decimal digits, zero-padded to width 6.\<close>

fun str_nat :: "nat \<Rightarrow> string" where
  "str_nat n =
     (if n < 10 then [''0123456789'' ! n]
      else str_nat (n div 10) @ [''0123456789'' ! (n mod 10)])"

definition format_06d :: "nat \<Rightarrow> string" where
  "format_06d n = (let s = str_nat n in replicate (6 - length s) CHR ''0'' @ s)"

text \<open>
  \<open>issue\<close>. The random draws and the clock are arguments: \<open>n\<close> is the result of
  \<open>secrets.randbelow(1_000_000)\<close>, \<open>salt\<close> of \<open>secrets.token_hex(16)\<close>, and
  \<open>created_at\<close> is \<open>datetime.now(timezone.utc).isoformat()\<close>.
\<close>

definition issue ::
  "kdf \<Rightarrow> nat \<Rightarrow> string \<Rightarrow> string \<Rightarrow> string \<Rightarrow> string \<Rightarrow> int option \<Rightarrow> otp_cache
     \<Rightarrow> (jtext \<times> string) \<times> otp_cache" where
  "issue pbkdf2_hmac n salt created_at email purpose ttl_minutes_arg c =
     (let ttl_minutes = (case ttl_minutes_arg of None \<Rightarrow> DEFAULT_TTL_MINUTES | Some t \<Rightarrow> t);
          code = format_06d n;
          otp_data = JObj
            [(''code_hash'', JStr (otp_hash pbkdf2_hmac salt code)),
             (''attempts'', JInt 0),
             (''verified'', JBool False),
             (''created_at'', JStr created_at),
             (''purpose'', JStr purpose),
             (''email'', JStr email)];
          key = generate_key email purpose;
          c' = cache_set c key (json_dumps otp_data) (Some (ttl_minutes * 60))
      in ((json_dumps otp_data, code), c'))"

text \<open>Python operations on a loaded JSON value, with the exceptions they raise.\<close>

definition dict_get :: "json \<Rightarrow> string \<Rightarrow> json \<Rightarrow> exn + json" where
  "dict_get d k dflt =
     (case d of
        JObj kvs \<Rightarrow> Inr (case map_of kvs k of None \<Rightarrow> dflt | Some v \<Rightarrow> v)
      | _ \<Rightarrow> Inl AttributeError)"



definition py_int :: "json \<Rightarrow> exn + int" where
  "py_int v =
     (case v of JInt n \<Rightarrow> Inr n | JBool b \<Rightarrow> Inr (if b then 1 else 0) | _ \<Rightarrow> Inl TypeError)"









text \<open>A toy key-derivation function, only to run the model on concrete inputs.\<close>

definition toy_kdf :: kdf where
  "toy_kdf name password salt iterations = map (\<lambda>c. of_nat (of_char c)) (password @ salt)"

section \<open>stocks/utils.py: the in-memory cache\<close>

text \<open>
  \<^verbatim>\<open>_cache = {}\<close> and \<^verbatim>\<open>_cache_timestamps = {}\<close> are two module-level dicts.
  \<open>datetime.now()\<close> is an argument of the model (\<open>now\<close>, in microseconds, the
  resolution of \<open>datetime\<close>); \<open>timedelta(minutes=m)\<close> is \<open>m * 60000000\<close>.
\<close>

record 'd mem_cache =
  cache :: "string \<rightharpoonup> 'd"
  cache_timestamps :: "string \<rightharpoonup> int"

definition timedelta_minutes :: "int \<Rightarrow> int" where
  "timedelta_minutes m = m * 60000000"

definition get_cached_data ::
  "string \<Rightarrow> int \<Rightarrow> int \<Rightarrow> 'd mem_cache \<Rightarrow> 'd option \<times> 'd mem_cache" where
  "get_cached_data symbol max_age_minutes now c =
     (if cache c symbol = None \<or> cache_timestamps c symbol = None then (None, c)
      else
        let cache_time = the (cache_timestamps c symbol);
            current_time = now
        in if current_time - cache_time > timedelta_minutes max_age_minutes
           then (None, c\<lparr>cache := (cache c)(symbol := None),
                         cache_timestamps := (cache_timestamps c)(symbol := None)\<rparr>)
           else (cache c symbol, c))"

definition set_cached_data :: "string \<Rightarrow> 'd \<Rightarrow> int \<Rightarrow> 'd mem_cache \<Rightarrow> 'd mem_cache" where
  "set_cached_data symbol data now c =
     c\<lparr>cache := (cache c)(symbol \<mapsto> data),
       cache_timestamps := (cache_timestamps c)(symbol \<mapsto> now)\<rparr>"

definition empty_cache :: "'d mem_cache" where
  "empty_cache = \<lparr>cache = Map.empty, cache_timestamps = Map.empty\<rparr>"

section \<open>stocks/token_manager.py: the world around the token manager\<close>

text \<open>
  \<open>KISTokenManager\<close> talks to three things outside the process: the Redis cache, the
  clock and the KIS HTTP endpoint. They are gathered in a \<open>world\<close> that every function
  takes and returns:
  \<^item> \<open>store\<close>: the cache contents, each key with its value and the timeout it was set
    with; \<open>cache_up\<close>: whether the cache can be reached (when it cannot, every cache
    call raises);
  \<^item> \<open>clock\<close>: \<open>datetime.now()\<close>, in seconds since 0001-01-01T00:00:00;
  \<^item> \<open>trace\<close>: the log of what the process did that is visible outside: sleeps, HTTP
    POSTs and attempts on the distributed lock.
  What the rest of the world does is an \<open>env\<close>: how the world changes while the process
  sleeps (other processes write the cache, entries expire, time passes), how the KIS
  server answers a POST, and the library functions \<open>datetime.fromisoformat\<close> and
  \<open>datetime.isoformat\<close>. Computation between two such points takes no time.
\<close>

record manager =
  oid :: nat
  app_key :: string
  app_secret :: string
  base_url :: string

record request =
  url :: string
  content_type :: string
  grant_type :: string
  appkey :: string
  appsecret :: string
  timeout :: int

datatype event = Slept int | Posted request | LockAttempt bool

datatype http_result =
    RaisesTimeout
  | RaisesConnectionError
  | RaisesOther
  | Response nat "json option"

datatype pydatetime = Naive int | Aware int

record world =
  store :: "string \<rightharpoonup> json \<times> json"
  cache_up :: bool
  clock :: int
  trace :: "event list"

record env =
  during_sleep :: "int \<Rightarrow> world \<Rightarrow> world"
  kis_post :: "request \<Rightarrow> world \<Rightarrow> http_result \<times> world"
  fromisoformat :: "string \<Rightarrow> pydatetime option"
  isoformat :: "int \<Rightarrow> string"

definition sleep :: "env \<Rightarrow> int \<Rightarrow> world \<Rightarrow> world" where
  "sleep E seconds w = (during_sleep E seconds w)\<lparr>trace := trace w @ [Slept seconds]\<rparr>"

definition post :: "env \<Rightarrow> request \<Rightarrow> world \<Rightarrow> http_result \<times> world" where
  "post E req w =
     (let (r, w') = kis_post E req w in (r, w'\<lparr>trace := trace w @ [Posted req]\<rparr>))"

text \<open>The Django cache API on the world. \<open>cache.get\<close> of a missing key is None.\<close>

definition redis_get :: "string \<Rightarrow> world \<Rightarrow> exn + json" where
  "redis_get key w =
     (if cache_up w
      then Inr (case store w key of None \<Rightarrow> JNull | Some (v, t) \<Rightarrow> v)
      else Inl ConnectionInterrupted)"

definition redis_set :: "string \<Rightarrow> json \<Rightarrow> json \<Rightarrow> world \<Rightarrow> exn + world" where
  "redis_set key v t w =
     (if cache_up w
      then Inr (w\<lparr>store := (store w)(key \<mapsto> (v, t))\<rparr>)
      else Inl ConnectionInterrupted)"

definition redis_add :: "string \<Rightarrow> json \<Rightarrow> json \<Rightarrow> world \<Rightarrow> exn + bool \<times> world" where
  "redis_add key v t w =
     (if cache_up w
      then (if store w key = None
            then Inr (True, w\<lparr>store := (store w)(key \<mapsto> (v, t))\<rparr>)
            else Inr (False, w))
      else Inl ConnectionInterrupted)"

definition redis_delete :: "string \<Rightarrow> world \<Rightarrow> exn + world" where
  "redis_delete key w =
     (if cache_up w
      then Inr (w\<lparr>store := (store w)(key := None)\<rparr>)
      else Inl ConnectionInterrupted)"

section \<open>stocks/token_manager.py: KISTokenManager\<close>

definition TOKEN_KEY :: string where
  "TOKEN_KEY = ''kis_api_token''"

definition TOKEN_EXPIRES_KEY :: string where
  "TOKEN_EXPIRES_KEY = ''kis_api_token_expires''"

definition TOKEN_LOCK_KEY :: string where
  "TOKEN_LOCK_KEY = ''kis_api_token_lock''"

definition LOCK_TIMEOUT :: int where
  "LOCK_TIMEOUT = 30"

definition TOKEN_BUFFER_TIME :: int where
  "TOKEN_BUFFER_TIME = 300"

text \<open>
  The validity check of a cached token, which the source writes out three times (in
  \<open>get_token\<close>, in the retry loop and in the double check of \<open>_refresh_token\<close>):
  \<^verbatim>\<open>
  if token and expires_str:
      try:
          expires_at = datetime.fromisoformat(expires_str)
          if datetime.now() < expires_at: return token
      except (ValueError, TypeError): ...
  \<close>
  \<open>fromisoformat\<close> raises TypeError on a value that is not a string and ValueError on
  a string it cannot parse; comparing the naive \<open>datetime.now()\<close> with an aware datetime
  raises TypeError. All of these are caught, and the token is then not used.
\<close>

definition parse_expiry :: "env \<Rightarrow> json \<Rightarrow> exn + pydatetime" where
  "parse_expiry E expires_str =
     (case expires_str of
        JStr s \<Rightarrow> (case fromisoformat E s of None \<Rightarrow> Inl ValueError | Some d \<Rightarrow> Inr d)
      | _ \<Rightarrow> Inl TypeError)"

definition now_less :: "int \<Rightarrow> pydatetime \<Rightarrow> exn + bool" where
  "now_less now expires_at =
     (case expires_at of Naive t \<Rightarrow> Inr (now < t) | Aware t \<Rightarrow> Inl TypeError)"

definition cached_token_valid :: "env \<Rightarrow> world \<Rightarrow> json \<Rightarrow> json \<Rightarrow> bool" where
  "cached_token_valid E w token expires_str =
     (truthy token \<and> truthy expires_str \<and>
      (case parse_expiry E expires_str of
         Inl e \<Rightarrow> False
       | Inr expires_at \<Rightarrow>
           (case now_less (clock w) expires_at of Inl e \<Rightarrow> False | Inr b \<Rightarrow> b)))"

text \<open>
  \<open>datetime.now() + timedelta(seconds=expires_in - self.TOKEN_BUFFER_TIME)\<close>. The
  subtraction is a TypeError unless \<open>expires_in\<close> is an integer (or a bool); a
  \<open>timedelta\<close> holds at most 999999999 days in either direction and a \<open>datetime\<close> lies
  between the years 1 and 9999, otherwise OverflowError.
\<close>

definition timedelta_seconds :: "int \<Rightarrow> exn + int" where
  "timedelta_seconds s =
     (if - 999999999 \<le> s div 86400 \<and> s div 86400 \<le> 999999999 then Inr s
      else Inl OverflowError)"

definition datetime_add :: "int \<Rightarrow> int \<Rightarrow> exn + int" where
  "datetime_add now delta =
     (if 0 \<le> now + delta \<and> now + delta < 3652059 * 86400 then Inr (now + delta)
      else Inl OverflowError)"

definition expiry_time :: "int \<Rightarrow> json \<Rightarrow> exn + int" where
  "expiry_time now expires_in =
     (case py_int expires_in of
        Inl e \<Rightarrow> Inl e
      | Inr n \<Rightarrow>
          (case timedelta_seconds (n - TOKEN_BUFFER_TIME) of
             Inl e \<Rightarrow> Inl e
           | Inr delta \<Rightarrow> datetime_add now delta))"

definition token_request :: "manager \<Rightarrow> request" where
  "token_request self =
     \<lparr>url = base_url self @ ''/oauth2/tokenP'',
      content_type = ''application/json'',
      grant_type = ''client_credentials'',
      appkey = app_key self,
      appsecret = app_secret self,
      timeout = 30\<rparr>"

text \<open>
  Storing the token and its expiry:
  \<^verbatim>\<open>
  try:
      cache.set(self.TOKEN_KEY, token, timeout=expires_in)
      cache.set(self.TOKEN_EXPIRES_KEY, expires_at.isoformat(), timeout=expires_in)
  except Exception as cache_error: logger.warning(...)
  \<close>
\<close>

definition cache_token :: "env \<Rightarrow> json \<Rightarrow> json \<Rightarrow> int \<Rightarrow> world \<Rightarrow> world" where
  "cache_token E token expires_in expires_at w =
     (case redis_set TOKEN_KEY token expires_in w of
        Inl e \<Rightarrow> w
      | Inr w1 \<Rightarrow>
          (case redis_set TOKEN_EXPIRES_KEY (JStr (isoformat E expires_at)) expires_in w1 of
             Inl e \<Rightarrow> w1
           | Inr w2 \<Rightarrow> w2))"

text \<open>The part of the \<open>try\<close> block after \<open>response.json()\<close>.\<close>

definition token_from_response :: "env \<Rightarrow> json \<Rightarrow> world \<Rightarrow> (exn + json) \<times> world" where
  "token_from_response E token_data w =
     (case dict_get token_data ''access_token'' JNull of
        Inl e \<Rightarrow> (Inl e, w)
      | Inr token \<Rightarrow>
          if \<not> truthy token then (Inl (KISTokenError NoAccessToken), w)
          else
            (case dict_get token_data ''expires_in'' (JInt 86400) of
               Inl e \<Rightarrow> (Inl e, w)
             | Inr expires_in \<Rightarrow>
                 (case expiry_time (clock w) expires_in of
                    Inl e \<Rightarrow> (Inl e, w)
                  | Inr expires_at \<Rightarrow>
                      (Inr token, cache_token E token expires_in expires_at w))))"

text \<open>
  The \<open>try\<close> block: \<open>requests.post\<close>, \<open>raise_for_status\<close> (an HTTPError for a status
  from 400 to 599), \<open>response.json()\<close> and the rest.
\<close>

definition request_try :: "env \<Rightarrow> manager \<Rightarrow> world \<Rightarrow> (exn + json) \<times> world" where
  "request_try E self w =
     (let (response, w1) = post E (token_request self) w in
      case response of
        RaisesTimeout \<Rightarrow> (Inl ReqTimeout, w1)
      | RaisesConnectionError \<Rightarrow> (Inl ReqConnectionError, w1)
      | RaisesOther \<Rightarrow> (Inl ReqOther, w1)
      | Response status_code body \<Rightarrow>
          if 400 \<le> status_code \<and> status_code < 600 then (Inl (ReqHTTPError status_code), w1)
          else
            (case body of
               None \<Rightarrow> (Inl ReqJSONDecodeError, w1)
             | Some token_data \<Rightarrow> token_from_response E token_data w1))"

text \<open>
  The \<open>except\<close> clauses, in the order of the source. Every exception, the
  \<open>KISTokenError\<close> raised inside the \<open>try\<close> included, leaves as a \<open>KISTokenError\<close>.
\<close>

definition except_clauses :: "exn \<Rightarrow> kis_msg" where
  "except_clauses e =
     (case e of
        ReqTimeout \<Rightarrow> TokenTimeout
      | ReqConnectionError \<Rightarrow> TokenConnection
      | ReqHTTPError status_code \<Rightarrow>
          (if status_code = 403 then TokenForbidden
           else if status_code = 429 then TokenRateLimited
           else TokenHTTP e)
      | ReqJSONDecodeError \<Rightarrow> TokenRequestFailed e
      | ReqOther \<Rightarrow> TokenRequestFailed e
      | _ \<Rightarrow> TokenUnexpected e)"

text \<open>
  \<open>_request_new_token\<close> and \<open>_request_new_token_direct\<close> have the same body up to log
  messages. The result \<open>Inl msg\<close> stands for \<open>raise KISTokenError(msg)\<close>.
\<close>

definition request_new_token :: "env \<Rightarrow> manager \<Rightarrow> world \<Rightarrow> (kis_msg + json) \<times> world" where
  "request_new_token E self w =
     (case request_try E self w of
        (Inl e, w') \<Rightarrow> (Inl (except_clauses e), w')
      | (Inr token, w') \<Rightarrow> (Inr token, w'))"

definition request_new_token_direct :: "env \<Rightarrow> manager \<Rightarrow> world \<Rightarrow> (kis_msg + json) \<times> world" where
  "request_new_token_direct E self w =
     (case request_try E self w of
        (Inl e, w') \<Rightarrow> (Inl (except_clauses e), w')
      | (Inr token, w') \<Rightarrow> (Inr token, w'))"

text \<open>A raised \<open>KISTokenError\<close> seen as an exception by an enclosing \<open>try\<close>.\<close>

definition raised :: "(kis_msg + json) \<times> world \<Rightarrow> (exn + json) \<times> world" where
  "raised r = (case r of (Inl msg, w) \<Rightarrow> (Inl (KISTokenError msg), w) | (Inr v, w) \<Rightarrow> (Inr v, w))"

text \<open>
  The retry loop of \<open>_refresh_token\<close>, \<open>for retry in range(max_retries)\<close>, as a
  recursion over the retries still to come. \<open>Inr None\<close>: the loop ran out.
\<close>

fun backoff_loop :: "env \<Rightarrow> int \<Rightarrow> nat list \<Rightarrow> world \<Rightarrow> (exn + json option) \<times> world" where
  "backoff_loop E base_wait_time [] w = (Inr None, w)"
| "backoff_loop E base_wait_time (retry # retries) w =
     (let wait_time = base_wait_time * 2 ^ retry;
          w1 = sleep E wait_time w
      in case redis_get TOKEN_KEY w1 of
           Inl e \<Rightarrow> (Inl e, w1)
         | Inr token \<Rightarrow>
             (case redis_get TOKEN_EXPIRES_KEY w1 of
                Inl e \<Rightarrow> (Inl e, w1)
              | Inr expires_str \<Rightarrow>
                  if cached_token_valid E w1 token expires_str then (Inr (Some token), w1)
                  else backoff_loop E base_wait_time retries w1))"

text \<open>The \<open>try ... finally\<close> that runs with the distributed lock held.\<close>

definition refresh_locked :: "env \<Rightarrow> manager \<Rightarrow> world \<Rightarrow> (exn + json) \<times> world" where
  "refresh_locked E self w =
     (let (r, w1) =
            (case redis_get TOKEN_KEY w of
               Inl e \<Rightarrow> (Inl e, w)
             | Inr token \<Rightarrow>
                 (case redis_get TOKEN_EXPIRES_KEY w of
                    Inl e \<Rightarrow> (Inl e, w)
                  | Inr expires_str \<Rightarrow>
                      if cached_token_valid E w token expires_str then (Inr token, w)
                      else raised (request_new_token E self w)));
          w2 = (case redis_delete TOKEN_LOCK_KEY w1 of Inl e \<Rightarrow> w1 | Inr w' \<Rightarrow> w')
      in (r, w2))"

text \<open>The outer \<open>try\<close> of \<open>_refresh_token\<close> (the local thread lock always succeeds).\<close>

definition refresh_try :: "env \<Rightarrow> manager \<Rightarrow> world \<Rightarrow> (exn + json) \<times> world" where
  "refresh_try E self w =
     (case redis_add TOKEN_LOCK_KEY (JStr ''locked'') (JInt LOCK_TIMEOUT) w of
        Inl e \<Rightarrow> (Inl e, w)
      | Inr (lock_acquired, w0) \<Rightarrow>
          let w1 = w0\<lparr>trace := trace w0 @ [LockAttempt lock_acquired]\<rparr> in
          if \<not> lock_acquired then
            (let max_retries = 5; base_wait_time = 2 in
             case backoff_loop E base_wait_time [0..<max_retries] w1 of
               (Inl e, w2) \<Rightarrow> (Inl e, w2)
             | (Inr (Some token), w2) \<Rightarrow> (Inr token, w2)
             | (Inr None, w2) \<Rightarrow> raised (request_new_token_direct E self w2))
          else refresh_locked E self w1)"

definition refresh_token :: "env \<Rightarrow> manager \<Rightarrow> world \<Rightarrow> (kis_msg + json) \<times> world" where
  "refresh_token E self w =
     (case refresh_try E self w of
        (Inl e, w') \<Rightarrow> request_new_token_direct E self w'
      | (Inr token, w') \<Rightarrow> (Inr token, w'))"

definition get_token_try :: "env \<Rightarrow> manager \<Rightarrow> world \<Rightarrow> (exn + json) \<times> world" where
  "get_token_try E self w =
     (case redis_get TOKEN_KEY w of
        Inl e \<Rightarrow> (Inl e, w)
      | Inr token \<Rightarrow>
          (case redis_get TOKEN_EXPIRES_KEY w of
             Inl e \<Rightarrow> (Inl e, w)
           | Inr expires_str \<Rightarrow>
               if cached_token_valid E w token expires_str then (Inr token, w)
               else raised (refresh_token E self w)))"

definition get_token :: "env \<Rightarrow> manager \<Rightarrow> world \<Rightarrow> (kis_msg + json) \<times> world" where
  "get_token E self w =
     (case get_token_try E self w of
        (Inl e, w') \<Rightarrow> request_new_token_direct E self w'
      | (Inr token, w') \<Rightarrow> (Inr token, w'))"

text \<open>Concrete inputs on which the token manager is run below.\<close>

definition demo_manager :: manager where
  "demo_manager =
     \<lparr>oid = 0, app_key = ''key'', app_secret = ''secret'',
      base_url = ''https://openapi.koreainvestment.com:9443''\<rparr>"

definition quiet_world :: world where
  "quiet_world = \<lparr>store = Map.empty, cache_up = True, clock = 63900000000, trace = []\<rparr>"

definition toy_fromisoformat :: "string \<Rightarrow> pydatetime option" where
  "toy_fromisoformat s =
     (if s = ''9999-12-31T23:59:59'' then Some (Naive 315537897599)
      else if s = ''0001-01-01T00:00:00'' then Some (Naive 0)
      else if s = ''9999-12-31T23:59:59+00:00'' then Some (Aware 315537897599)
      else None)"

definition env_answering :: "http_result \<Rightarrow> env" where
  "env_answering r =
     \<lparr>during_sleep = (\<lambda>seconds w. w\<lparr>clock := clock w + seconds\<rparr>),
      kis_post = (\<lambda>req w. (r, w)),
      fromisoformat = toy_fromisoformat,
      isoformat = (\<lambda>t. ''some-iso-string'')\<rparr>"

text \<open>
  What a reader of the cache sees in a world, and whether that is a usable token; the
  world after the first \<open>k\<close> waits of the retry loop; and the world right after
  \<open>cache.add\<close> on the lock key was refused.
\<close>

definition cached_token :: "world \<Rightarrow> json" where
  "cached_token w = (case store w TOKEN_KEY of None \<Rightarrow> JNull | Some (v, t) \<Rightarrow> v)"

definition cached_expiry :: "world \<Rightarrow> json" where
  "cached_expiry w = (case store w TOKEN_EXPIRES_KEY of None \<Rightarrow> JNull | Some (v, t) \<Rightarrow> v)"

definition cache_valid :: "env \<Rightarrow> world \<Rightarrow> bool" where
  "cache_valid E w = cached_token_valid E w (cached_token w) (cached_expiry w)"

fun after_waits :: "env \<Rightarrow> int \<Rightarrow> world \<Rightarrow> nat \<Rightarrow> world" where
  "after_waits E base_wait_time w 0 = w"
| "after_waits E base_wait_time w (Suc k) =
     sleep E (base_wait_time * 2 ^ k) (after_waits E base_wait_time w k)"

definition lock_refused :: "world \<Rightarrow> world" where
  "lock_refused w = w\<lparr>trace := trace w @ [LockAttempt False]\<rparr>"

text \<open>
  A world in which another process holds the lock, and an environment in which that
  process stores a fresh token while this one sleeps for 4 seconds.
\<close>

definition lock_held_world :: world where
  "lock_held_world =
     quiet_world\<lparr>store := [TOKEN_LOCK_KEY \<mapsto> (JStr ''locked'', JInt 30)]\<rparr>"

definition fresh_token_world :: world where
  "fresh_token_world =
     quiet_world\<lparr>store :=
       [TOKEN_KEY \<mapsto> (JStr ''tok'', JInt 86400),
        TOKEN_EXPIRES_KEY \<mapsto> (JStr ''9999-12-31T23:59:59'', JInt 86400)]\<rparr>"

definition env_other_refreshes :: env where
  "env_other_refreshes =
     \<lparr>during_sleep = (\<lambda>seconds w.
        if seconds = 4
        then w\<lparr>store := (store w)
                 (TOKEN_KEY \<mapsto> (JStr ''tok'', JInt 86400),
                  TOKEN_EXPIRES_KEY \<mapsto> (JStr ''9999-12-31T23:59:59'', JInt 86400)),
               clock := clock w + seconds\<rparr>
        else w\<lparr>clock := clock w + seconds\<rparr>),
      kis_post = (\<lambda>req w. (RaisesTimeout, w)),
      fromisoformat = toy_fromisoformat,
      isoformat = (\<lambda>t. ''some-iso-string'')\<rparr>"

text \<open>
  A world whose cache holds a token with an offset-aware expiry far in the future, and an
  environment in which another process stores such a pair during the first wait (the
  2-second sleep) while the KIS server times out.
\<close>

definition aware_token_world :: world where
  "aware_token_world =
     quiet_world\<lparr>store :=
       [TOKEN_KEY \<mapsto> (JStr ''tok'', JInt 86400),
        TOKEN_EXPIRES_KEY \<mapsto> (JStr ''9999-12-31T23:59:59+00:00'', JInt 86400)]\<rparr>"

definition env_other_stores_aware :: env where
  "env_other_stores_aware =
     \<lparr>during_sleep = (\<lambda>seconds w.
        if seconds = 2
        then w\<lparr>store := (store w)
                 (TOKEN_KEY \<mapsto> (JStr ''tok'', JInt 86400),
                  TOKEN_EXPIRES_KEY \<mapsto> (JStr ''9999-12-31T23:59:59+00:00'', JInt 86400)),
               clock := clock w + seconds\<rparr>
        else w\<lparr>clock := clock w + seconds\<rparr>),
      kis_post = (\<lambda>req w. (RaisesTimeout, w)),
      fromisoformat = toy_fromisoformat,
      isoformat = (\<lambda>t. ''some-iso-string'')\<rparr>"

section \<open>stocks/token_manager.py: the global token manager\<close>

text \<open>
  \<open>os.environ\<close> is a map from names to strings. The module-level variable
  \<open>_token_manager\<close> is the \<open>token_manager\<close> field of the module state; objects have an
  identity (\<open>oid\<close>), allocated from \<open>next_oid\<close>, so that "the same instance" can be
  told from "an equal instance".
\<close>

type_synonym environ = "string \<rightharpoonup> string"

record module_state =
  token_manager :: "manager option"
  next_oid :: nat

definition getenv :: "environ \<Rightarrow> string \<Rightarrow> string option" where
  "getenv environ name = environ name"

definition getenv_default :: "environ \<Rightarrow> string \<Rightarrow> string \<Rightarrow> string" where
  "getenv_default environ name dflt = (case environ name of None \<Rightarrow> dflt | Some v \<Rightarrow> v)"

text \<open>\<open>KISTokenManager.__init__\<close>; \<open>not x\<close> holds for None and for the empty string.\<close>

definition KISTokenManager_init :: "environ \<Rightarrow> nat \<Rightarrow> exn + manager" where
  "KISTokenManager_init environ new_oid =
     (let key = getenv environ ''KIS_APP_KEY'';
          secret = getenv environ ''KIS_APP_SECRET'';
          base = getenv_default environ ''KIS_BASE_URL''
                   ''https://openapi.koreainvestment.com:9443''
      in case (key, secret) of
           (Some k, Some sec) \<Rightarrow>
             if k = [] \<or> sec = [] then Inl ValueError
             else Inr \<lparr>oid = new_oid, app_key = k, app_secret = sec, base_url = base\<rparr>
         | _ \<Rightarrow> Inl ValueError)"

definition get_token_manager :: "environ \<Rightarrow> module_state \<Rightarrow> (exn + manager) \<times> module_state" where
  "get_token_manager environ s =
     (case token_manager s of
        None \<Rightarrow>
          (case KISTokenManager_init environ (next_oid s) of
             Inl e \<Rightarrow> (Inl e, s\<lparr>next_oid := Suc (next_oid s)\<rparr>)
           | Inr m \<Rightarrow> (Inr m, s\<lparr>token_manager := Some m, next_oid := Suc (next_oid s)\<rparr>))
      | Some m \<Rightarrow> (Inr m, s))"

text \<open>A run of later calls, each under its own environment variables.\<close>

fun get_token_manager_calls ::
  "environ list \<Rightarrow> module_state \<Rightarrow> (exn + manager) list \<times> module_state" where
  "get_token_manager_calls [] s = ([], s)"
| "get_token_manager_calls (environ # environs) s =
     (let (r, s') = get_token_manager environ s;
          (rs, s'') = get_token_manager_calls environs s'
      in (r # rs, s''))"

section \<open>stocks/utils.py: retry\_on\_429\<close>

text \<open>
  An exception of the wrapped function is its class name and its message (\<open>str(e)\<close>).
  Strings are byte strings: \<open>lower\<close> maps the ASCII capitals and \<open>contains p s\<close> is
  Python's \<open>p in s\<close>.
\<close>

datatype pyexc = PyExc (exc_class: string) (exc_str: string)

definition lower_char :: "char \<Rightarrow> char" where
  "lower_char c =
     (case map_of (zip ''ABCDEFGHIJKLMNOPQRSTUVWXYZ'' ''abcdefghijklmnopqrstuvwxyz'') c of
        None \<Rightarrow> c
      | Some l \<Rightarrow> l)"

definition lower :: "string \<Rightarrow> string" where
  "lower s = map lower_char s"

fun starts_with :: "string \<Rightarrow> string \<Rightarrow> bool" where
  "starts_with [] s = True"
| "starts_with (p # ps) [] = False"
| "starts_with (p # ps) (c # cs) = (p = c \<and> starts_with ps cs)"

fun contains :: "string \<Rightarrow> string \<Rightarrow> bool" where
  "contains p [] = (p = [])"
| "contains p (c # cs) = (starts_with p (c # cs) \<or> contains p cs)"

definition is_rate_limit_error :: "pyexc \<Rightarrow> bool" where
  "is_rate_limit_error e =
     (let error_str = lower (exc_str e)
      in contains ''429'' error_str
         \<or> contains ''too many requests'' error_str
         \<or> contains ''rate limit'' error_str)"

text \<open>
  The wrapper's loop, \<open>for attempt in range(max_retries + 1)\<close>, as a recursion over the
  attempts still to come. The wrapped function is a state transformer that returns or
  raises; \<open>uniform k\<close> is the draw of \<open>random.uniform(0, 1)\<close> in attempt \<open>k\<close>;
  \<open>pause\<close> is what \<open>time.sleep\<close> does to the state. Delays are real numbers. The
  result is what the wrapper returns (\<open>Inr None\<close>: the wrapper's own \<open>return None\<close>) or
  raises, the delays it slept, and the final state.
\<close>

fun retry_attempts ::
  "int \<Rightarrow> real \<Rightarrow> (nat \<Rightarrow> real) \<Rightarrow> (real \<Rightarrow> 's \<Rightarrow> 's) \<Rightarrow> ('s \<Rightarrow> (pyexc + 'a) \<times> 's)
     \<Rightarrow> nat list \<Rightarrow> 's \<Rightarrow> (pyexc + 'a option) \<times> real list \<times> 's" where
  "retry_attempts max_retries base_delay uniform pause func [] s = (Inr None, [], s)"
| "retry_attempts max_retries base_delay uniform pause func (attempt # attempts) s =
     (case func s of
        (Inr v, s1) \<Rightarrow> (Inr (Some v), [], s1)
      | (Inl e, s1) \<Rightarrow>
          if is_rate_limit_error e then
            (if int attempt < max_retries then
               (let delay = base_delay * 2 ^ attempt + uniform attempt;
                    (r, delays, s2) =
                      retry_attempts max_retries base_delay uniform pause func attempts
                        (pause delay s1)
                in (r, delay # delays, s2))
             else (Inr None, [], s1))
          else (Inl e, [], s1))"

definition retry_on_429 ::
  "int \<Rightarrow> real \<Rightarrow> (nat \<Rightarrow> real) \<Rightarrow> (real \<Rightarrow> 's \<Rightarrow> 's) \<Rightarrow> ('s \<Rightarrow> (pyexc + 'a) \<times> 's)
     \<Rightarrow> 's \<Rightarrow> (pyexc + 'a option) \<times> real list \<times> 's" where
  "retry_on_429 max_retries base_delay uniform pause func s =
     retry_attempts max_retries base_delay uniform pause func [0..<nat (max_retries + 1)] s"

text \<open>
  The delay of attempt \<open>k\<close>, the state in which the wrapped function is called for the
  \<open>k\<close>-th time (counting from 0) when all earlier calls were retried, and whether an
  outcome is a rate-limit error.
\<close>

definition retry_delay :: "real \<Rightarrow> (nat \<Rightarrow> real) \<Rightarrow> nat \<Rightarrow> real" where
  "retry_delay base_delay uniform k = base_delay * 2 ^ k + uniform k"

fun state_before ::
  "real \<Rightarrow> (nat \<Rightarrow> real) \<Rightarrow> (real \<Rightarrow> 's \<Rightarrow> 's) \<Rightarrow> ('s \<Rightarrow> (pyexc + 'a) \<times> 's) \<Rightarrow> 's \<Rightarrow> nat \<Rightarrow> 's" where
  "state_before base_delay uniform pause func s 0 = s"
| "state_before base_delay uniform pause func s (Suc k) =
     pause (retry_delay base_delay uniform k)
       (snd (func (state_before base_delay uniform pause func s k)))"

definition rate_limited :: "pyexc + 'a \<Rightarrow> bool" where
  "rate_limited r = (case r of Inl e \<Rightarrow> is_rate_limit_error e | Inr v \<Rightarrow> False)"

definition returned :: "pyexc + 'a \<Rightarrow> pyexc + 'a option" where
  "returned r = (case r of Inl e \<Rightarrow> Inl e | Inr v \<Rightarrow> Inr (Some v))"

text \<open>A function that always fails with HTTP 429 and counts its calls.\<close>

definition always_429 :: "nat \<Rightarrow> (pyexc + unit) \<times> nat" where
  "always_429 calls = (Inl (PyExc ''HTTPError'' ''429 Client Error: Too Many Requests''), Suc calls)"

definition always_broken :: "nat \<Rightarrow> (pyexc + unit) \<times> nat" where
  "always_broken calls = (Inl (PyExc ''KeyError'' ''Close''), Suc calls)"

section \<open>stocks/utils.py: get\_stock\_data\<close>

text \<open>
  The values of a stock dict are strings, floats (idealised as real numbers) and ints;
  a dict is an association list in insertion order.
\<close>

datatype pyval = PStr string | PFloat real | PInt int

type_synonym pydict = "(string \<times> pyval) list"

definition create_standardized_response ::
  "string \<Rightarrow> string \<Rightarrow> string \<Rightarrow> string \<Rightarrow> string \<Rightarrow> string \<Rightarrow> pydict" where
  "create_standardized_response title market price change change_rate sign =
     [(''title'', PStr title),
      (''market'', PStr market),
      (''price'', PStr (if price = [] then ''0'' else price)),
      (''change'', PStr (if change = [] then ''0'' else change)),
      (''changeRate'', PStr (if change_rate = [] then ''0.00'' else change_rate)),
      (''sign'', PStr (if sign = [] then ''0'' else sign))]"

text \<open>\<open>STOCK_SYMBOLS\<close>: symbol, name and sector.\<close>

definition STOCK_SYMBOLS :: "(string \<times> string \<times> string) list" where
  "STOCK_SYMBOLS =
     [(''AAPL'', ''Apple Inc'', ''Technology''),
      (''MSFT'', ''Microsoft Corporation'', ''Technology''),
      (''GOOGL'', ''Alphabet Inc'', ''Technology''),
      (''TSLA'', ''Tesla Inc'', ''Consumer Cyclical''),
      (''AMZN'', ''Amazon.com Inc'', ''Consumer Cyclical''),
      (''NVDA'', ''NVIDIA Corporation'', ''Technology'')]"

definition stock_name :: "string \<Rightarrow> string" where
  "stock_name symbol =
     (case map_of STOCK_SYMBOLS symbol of None \<Rightarrow> symbol | Some (name, sector) \<Rightarrow> name)"

definition stock_sector :: "string \<Rightarrow> string" where
  "stock_sector symbol =
     (case map_of STOCK_SYMBOLS symbol of None \<Rightarrow> ''Unknown'' | Some (name, sector) \<Rightarrow> sector)"

text \<open>\<open>get_default_stock_data\<close>, with its table of price, name and sector.\<close>

definition default_data :: "(string \<times> real \<times> string \<times> string) list" where
  "default_data =
     [(''AAPL'', 220, ''Apple Inc'', ''Technology''),
      (''MSFT'', 430, ''Microsoft Corporation'', ''Technology''),
      (''GOOGL'', 160, ''Alphabet Inc'', ''Technology''),
      (''TSLA'', 240, ''Tesla Inc'', ''Consumer Cyclical''),
      (''AMZN'', 170, ''Amazon.com Inc'', ''Consumer Cyclical''),
      (''NVDA'', 450, ''NVIDIA Corporation'', ''Technology'')]"

definition get_default_stock_data :: "string \<Rightarrow> pydict" where
  "get_default_stock_data symbol =
     (let (price, name, sector) =
            (case map_of default_data symbol of
               None \<Rightarrow> (0, ''Unknown'', ''Unknown'')
             | Some d \<Rightarrow> d)
      in [(''symbol'', PStr symbol),
          (''name'', PStr name),
          (''sector'', PStr sector),
          (''price'', PFloat price),
          (''open'', PFloat price),
          (''high'', PFloat price),
          (''low'', PFloat price),
          (''volume'', PInt 0),
          (''previous_close'', PFloat price),
          (''change'', PFloat 0),
          (''change_percent'', PFloat 0),
          (''date'', PStr ''N/A''),
          (''data_source'', PStr ''default'')])"

text \<open>
  The module state: the in-memory cache, the globals of the rate limiter, the clock
  (\<open>datetime.now()\<close>, in microseconds) and the log of the sleeps. \<open>time.sleep\<close> raises
  ValueError for a negative duration and otherwise lets exactly that time pass.
\<close>

record stocks_state =
  mem :: "pydict mem_cache"
  last_api_call :: "int option"
  api_call_count :: int
  rate_limit_window :: int
  now :: int
  slept :: "real list"

definition slept_for :: "real \<Rightarrow> stocks_state \<Rightarrow> stocks_state" where
  "slept_for seconds s =
     s\<lparr>now := now s + \<lfloor>seconds * 1000000\<rfloor>, slept := slept s @ [seconds]\<rparr>"

definition time_sleep :: "real \<Rightarrow> stocks_state \<Rightarrow> pyexc + stocks_state" where
  "time_sleep seconds s =
     (if seconds < 0 then Inl (PyExc ''ValueError'' ''sleep length must be non-negative'')
      else Inr (slept_for seconds s))"

text \<open>
  Yahoo Finance, as the code sees it: whether the library could be imported, what
  \<open>yf.download\<close> gives for the periods "2d" and "1d" (an exception or the rows of the
  frame, oldest first), and the random draws. A cell that cannot be converted by
  \<open>float(...)\<close> or \<open>int(...)\<close> (a missing column, a NaN volume) is None.
\<close>

record bar =
  bar_date :: string
  bar_open :: "real option"
  bar_high :: "real option"
  bar_low :: "real option"
  bar_close :: "real option"
  bar_volume :: "int option"

datatype download_result = DownloadRaises pyexc | Frame "bar list"

record yahoo =
  YF_AVAILABLE :: bool
  download_2d :: "string \<Rightarrow> download_result"
  download_1d :: "string \<Rightarrow> download_result"
  uniform_2_4 :: real
  uniform_0_1 :: "nat \<Rightarrow> real"

text \<open>The two download attempts; the second, with its sleep, is inside its own \<open>try\<close>.\<close>

definition fetch_history :: "yahoo \<Rightarrow> string \<Rightarrow> stocks_state \<Rightarrow> bar list \<times> stocks_state" where
  "fetch_history Y symbol s =
     (case download_2d Y symbol of
        Frame hist \<Rightarrow> (hist, s)
      | DownloadRaises e1 \<Rightarrow>
          (case time_sleep (uniform_2_4 Y) s of
             Inl e2 \<Rightarrow> ([], s)
           | Inr s1 \<Rightarrow>
               (case download_1d Y symbol of
                  Frame hist \<Rightarrow> (hist, s1)
                | DownloadRaises e2 \<Rightarrow> ([], s1))))"

text \<open>From \<open>if hist.empty\<close> to the \<open>data\<close> dict.\<close>

definition build_stock_data :: "string \<Rightarrow> bar list \<Rightarrow> pyexc + pydict" where
  "build_stock_data symbol hist =
     (if hist = [] then Inl (PyExc ''Exception'' ''No historical data available'')
      else
        let latest = last hist;
            previous = (if length hist > 1 then hist ! (length hist - 2) else latest)
        in case (bar_close latest,
                 (if length hist > 1 then bar_close previous else bar_open latest),
                 bar_open latest, bar_high latest, bar_low latest, bar_volume latest) of
             (Some current_close, Some previous_close, Some open_price, Some high_price,
              Some low_price, Some volume) \<Rightarrow>
               (let change = current_close - previous_close;
                    change_percent =
                      (if previous_close \<noteq> 0 then PFloat (change / previous_close * 100)
                       else PInt 0)
                in Inr [(''symbol'', PStr symbol),
                        (''name'', PStr (stock_name symbol)),
                        (''sector'', PStr (stock_sector symbol)),
                        (''price'', PFloat current_close),
                        (''open'', PFloat open_price),
                        (''high'', PFloat high_price),
                        (''low'', PFloat low_price),
                        (''volume'', PInt volume),
                        (''previous_close'', PFloat previous_close),
                        (''change'', PFloat change),
                        (''change_percent'', change_percent),
                        (''date'', PStr (bar_date latest)),
                        (''data_source'', PStr ''yfinance_download'')])
           | _ \<Rightarrow> Inl (PyExc ''ValueError'' ''cannot convert''))"

text \<open>The \<open>try\<close> block of \<open>get_stock_data\<close>.\<close>

definition stock_data_try :: "yahoo \<Rightarrow> string \<Rightarrow> stocks_state \<Rightarrow> (pyexc + pydict) \<times> stocks_state" where
  "stock_data_try Y symbol s =
     (if \<not> YF_AVAILABLE Y then (Inl (PyExc ''Exception'' ''yfinance library not available''), s)
      else
        let (hist, s1) = fetch_history Y symbol s in
        case build_stock_data symbol hist of
          Inl e \<Rightarrow> (Inl e, s1)
        | Inr data \<Rightarrow> (Inr data, s1\<lparr>mem := set_cached_data symbol data (now s1) (mem s1)\<rparr>))"

text \<open>The undecorated function: cache lookup, \<open>try\<close>, and \<open>except Exception\<close>.\<close>

definition get_stock_data_body ::
  "yahoo \<Rightarrow> string \<Rightarrow> stocks_state \<Rightarrow> (pyexc + pydict) \<times> stocks_state" where
  "get_stock_data_body Y symbol s =
     (let (cached_data, m) = get_cached_data symbol 15 (now s) (mem s);
          s0 = s\<lparr>mem := m\<rparr>
      in case cached_data of
           Some d \<Rightarrow> (Inr d, s0)
         | None \<Rightarrow>
             (case stock_data_try Y symbol s0 of
                (Inr data, s1) \<Rightarrow> (Inr data, s1)
              | (Inl e, s1) \<Rightarrow>
                  (let default_data = get_default_stock_data symbol
                   in (Inr default_data,
                       s1\<lparr>mem := set_cached_data symbol default_data (now s1) (mem s1)\<rparr>))))"

text \<open>
  \<open>rate_limit_decorator\<close>. \<open>td.seconds\<close> is the seconds field of a normalised
  timedelta (0 to 86399), \<open>td.total_seconds()\<close> the whole duration.
\<close>

definition td_seconds :: "int \<Rightarrow> int" where
  "td_seconds d = (d mod 86400000000) div 1000000"

definition total_seconds :: "int \<Rightarrow> real" where
  "total_seconds d = of_int d / 1000000"

definition rate_limit_decorator ::
  "real \<Rightarrow> int \<Rightarrow> (stocks_state \<Rightarrow> (pyexc + 'a) \<times> stocks_state) \<Rightarrow> stocks_state
     \<Rightarrow> (pyexc + 'a) \<times> stocks_state" where
  "rate_limit_decorator min_interval max_calls_per_minute func s =
     (let current_time = now s;
          s1 = (if current_time - rate_limit_window s > timedelta_minutes 1
                then s\<lparr>api_call_count := 0, rate_limit_window := current_time\<rparr>
                else s)
      in case (if api_call_count s1 \<ge> max_calls_per_minute
               then (let wait_time = 60 - td_seconds (current_time - rate_limit_window s1)
                     in case time_sleep (of_int wait_time) s1 of
                          Inl e \<Rightarrow> Inl (e, s1)
                        | Inr s' \<Rightarrow> Inr (s'\<lparr>api_call_count := 0, rate_limit_window := now s'\<rparr>))
               else Inr s1) of
           Inl (e, s') \<Rightarrow> (Inl e, s')
         | Inr s2 \<Rightarrow>
             (case (case last_api_call s2 of
                      None \<Rightarrow> Inr s2
                    | Some l \<Rightarrow>
                        (let elapsed = total_seconds (current_time - l)
                         in if elapsed < min_interval
                            then (case time_sleep (min_interval - elapsed) s2 of
                                    Inl e \<Rightarrow> Inl (e, s2)
                                  | Inr s' \<Rightarrow> Inr s')
                            else Inr s2)) of
                Inl (e, s') \<Rightarrow> (Inl e, s')
              | Inr s3 \<Rightarrow>
                  func (s3\<lparr>last_api_call := Some (now s3),
                           api_call_count := api_call_count s3 + 1\<rparr>)))"

text \<open>
  The decorated function:
  \<^verbatim>\<open>
  @rate_limit_decorator(min_interval=5.0, max_calls_per_minute=5)
  @retry_on_429(max_retries=2, base_delay=3.0)
  def get_stock_data(symbol: str) -> dict:
  \<close>
  \<open>Inr None\<close> is the \<open>return None\<close> of \<open>retry_on_429\<close>.
\<close>

definition get_stock_data ::
  "yahoo \<Rightarrow> string \<Rightarrow> stocks_state \<Rightarrow> (pyexc + pydict option) \<times> stocks_state" where
  "get_stock_data Y symbol s =
     rate_limit_decorator 5 5
       (\<lambda>s'. let (r, delays, s'') =
                   retry_on_429 2 3 (uniform_0_1 Y) slept_for (get_stock_data_body Y symbol) s'
             in (r, s''))
       s"

text \<open>
  What \<open>get_multiple_stocks_parallel\<close> does with a symbol that is not in the cache and
  for which the parallel fetch gave prices: it builds the standardized response from the
  formatted numbers and stores it in the same cache, under the bare symbol:
  \<^verbatim>\<open>
  stock_name = STOCK_SYMBOLS.get(symbol, {}).get("name", symbol)
  stock_data = create_standardized_response(title=stock_name, market="US",
      price=f"{current_price:.2f}", change=f"{change:.2f}",
      change_rate=f"{change_rate:.2f}", sign=sign)
  set_cached_data(symbol, stock_data)
  \<close>
\<close>

definition cache_standardized_stock ::
  "string \<Rightarrow> string \<Rightarrow> string \<Rightarrow> string \<Rightarrow> string \<Rightarrow> stocks_state \<Rightarrow> stocks_state" where
  "cache_standardized_stock symbol price change change_rate sign s =
     (let stock_data =
            create_standardized_response (stock_name symbol) ''US'' price change change_rate sign
      in s\<lparr>mem := set_cached_data symbol stock_data (now s) (mem s)\<rparr>)"

text \<open>The keys every stock dict is meant to have.\<close>

definition stock_keys :: "string list" where
  "stock_keys =
     [''symbol'', ''name'', ''sector'', ''price'', ''open'', ''high'', ''low'', ''volume'',
      ''previous_close'', ''change'', ''change_percent'', ''date'', ''data_source'']"

definition has_stock_keys :: "pydict \<Rightarrow> bool" where
  "has_stock_keys d = list_all (\<lambda>k. map_of d k \<noteq> None) stock_keys"

text \<open>A freshly started module at some time of day, and a Yahoo that cannot be reached.\<close>

definition started :: stocks_state where
  "started =
     \<lparr>mem = empty_cache, last_api_call = None, api_call_count = 0,
      rate_limit_window = 1000000000, now = 1000000000, slept = []\<rparr>"

definition yahoo_down :: yahoo where
  "yahoo_down =
     \<lparr>YF_AVAILABLE = True,
      download_2d = (\<lambda>symbol. DownloadRaises (PyExc ''ConnectionError'' ''connection refused'')),
      download_1d = (\<lambda>symbol. DownloadRaises (PyExc ''ConnectionError'' ''connection refused'')),
      uniform_2_4 = 3,
      uniform_0_1 = (\<lambda>k. 1 / 2)\<rparr>"

section \<open>Properties of the OTP hashing\<close>

lemma hex_digit_in: "hex_digit n \<in> set ''0123456789abcdef''"
  unfolding hex_digit_def by (rule nth_mem) simp

lemma colon_notin_hex: "CHR '':'' \<notin> set (hex bs)"
proof
  assume "CHR '':'' \<in> set (hex bs)"
  then obtain b where "CHR '':'' \<in> set (hex_byte b)"
    by (auto simp: hex_def)
  then have "CHR '':'' = hex_digit (unat b div 16) \<or> CHR '':'' = hex_digit (unat b mod 16)"
    by (simp add: hex_byte_def)
  moreover have "CHR '':'' \<notin> set ''0123456789abcdef''" by simp
  ultimately show False
    using hex_digit_in [of "unat b div 16"] hex_digit_in [of "unat b mod 16"] by metis
qed

lemma split1_hash:
  assumes "CHR '':'' \<notin> set h"
  shows "split1 CHR '':'' (h @ CHR '':'' # salt) = [h, salt]"
proof -
  have "\<And>x. x \<in> set h \<Longrightarrow> x \<noteq> CHR '':''"
    using assms by auto
  then have "takeWhile (\<lambda>c. c \<noteq> CHR '':'') (h @ CHR '':'' # salt) = h"
    and "dropWhile (\<lambda>c. c \<noteq> CHR '':'') (h @ CHR '':'' # salt) = CHR '':'' # salt"
    by simp_all
  then show ?thesis
    by (simp add: split1_def)
qed

lemma verify_hash_own:
  "verify_hash pbkdf2_hmac code (JStr (otp_hash pbkdf2_hmac salt code)) = Inr True"
  by (simp add: verify_hash_def verify_hash_try_def otp_hash_def Let_def
      split1_hash [OF colon_notin_hex])

lemma verify_hash_total: "\<exists>b. verify_hash pbkdf2_hmac code stored_hash = Inr b"
  by (cases stored_hash)
     (auto simp: verify_hash_def verify_hash_try_def Let_def split: list.splits)

lemma verify_hash_no_colon:
  "CHR '':'' \<notin> set s \<Longrightarrow> verify_hash pbkdf2_hmac code (JStr s) = Inr False"
  by (simp add: verify_hash_def verify_hash_try_def split1_def)

text \<open>
  C9. The OTP hashing pair is a round trip and \<open>_verify_hash\<close> is total: for every code
  and every salt chosen inside \<open>_hash\<close>, verifying the code against its own hash returns
  True; for every stored hash, string or not, \<open>_verify_hash\<close> returns a boolean and never
  raises; a string with no \<open>:\<close> separator and a value that is not a string yield False.
\<close>

theorem verify_hash_roundtrip_total:
  "verify_hash pbkdf2_hmac code (JStr (otp_hash pbkdf2_hmac salt code)) = Inr True
   \<and> (\<exists>b. verify_hash pbkdf2_hmac code stored_hash = Inr b)
   \<and> (CHR '':'' \<notin> set s \<longrightarrow> verify_hash pbkdf2_hmac code (JStr s) = Inr False)
   \<and> ((\<forall>s. stored_hash \<noteq> JStr s) \<longrightarrow> verify_hash pbkdf2_hmac code stored_hash = Inr False)"
proof (intro conjI impI)
  show "verify_hash pbkdf2_hmac code (JStr (otp_hash pbkdf2_hmac salt code)) = Inr True"
    by (rule verify_hash_own)
  show "\<exists>b. verify_hash pbkdf2_hmac code stored_hash = Inr b"
    by (rule verify_hash_total)
  show "verify_hash pbkdf2_hmac code (JStr s) = Inr False" if "CHR '':'' \<notin> set s"
    using that by (rule verify_hash_no_colon)
  show "verify_hash pbkdf2_hmac code stored_hash = Inr False" if "\<forall>s. stored_hash \<noteq> JStr s"
    using that by (cases stored_hash) (simp_all add: verify_hash_def verify_hash_try_def)
qed

theorem verify_hash_roundtrip_total_witness:
  "verify_hash toy_kdf ''042917'' (JStr (otp_hash toy_kdf ''ab'' ''042917'')) = Inr True
   \<and> (CHR '':'' \<notin> set ''deadbeef'' \<and> verify_hash toy_kdf ''042917'' (JStr ''deadbeef'') = Inr False)
   \<and> ((\<forall>s. JNull \<noteq> JStr s) \<and> verify_hash toy_kdf ''042917'' JNull = Inr False)"
  using verify_hash_roundtrip_total [of toy_kdf "''042917''" "''ab''" JNull "''deadbeef''"]
  by simp

section \<open>Properties of issuing an OTP\<close>

declare str_nat.simps [simp del]

lemma str_nat_digits: "set (str_nat n) \<subseteq> set ''0123456789''"
proof (induction n rule: str_nat.induct)
  case (1 n)
  have d: "''0123456789'' ! (k mod 10) \<in> set ''0123456789''" for k :: nat
    by (rule nth_mem) simp
  show ?case
  proof (cases "n < 10")
    case True
    then have "str_nat n = [''0123456789'' ! (n mod 10)]"
      by (subst str_nat.simps) simp
    then show ?thesis using d [of n] by simp
  next
    case False
    then have "str_nat n = str_nat (n div 10) @ [''0123456789'' ! (n mod 10)]"
      by (subst str_nat.simps) simp
    then show ?thesis using 1 False d [of n] by simp
  qed
qed

lemma str_nat_length: "n < 10 ^ k \<Longrightarrow> 0 < k \<Longrightarrow> length (str_nat n) \<le> k"
proof (induction n arbitrary: k rule: str_nat.induct)
  case (1 n)
  show ?case
  proof (cases "n < 10")
    case True
    then have "str_nat n = [''0123456789'' ! n]"
      by (subst str_nat.simps) simp
    then show ?thesis using 1(3) by simp
  next
    case False
    then have eq: "str_nat n = str_nat (n div 10) @ [''0123456789'' ! (n mod 10)]"
      by (subst str_nat.simps) simp
    obtain j where k: "k = Suc j" using 1(3) by (cases k) auto
    have "j \<noteq> 0" using False 1(2) k by (cases j) auto
    moreover have "n div 10 < 10 ^ j" using 1(2) k by (simp add: less_mult_imp_div_less)
    ultimately have "length (str_nat (n div 10)) \<le> j"
      using 1(1) [OF False, of j] by simp
    then show ?thesis using eq k by simp
  qed
qed

lemma format_06d_six: "n < 1000000 \<Longrightarrow> length (format_06d n) = 6"
  using str_nat_length [of n 6] by (simp add: format_06d_def Let_def)

lemma format_06d_digits: "set (format_06d n) \<subseteq> set ''0123456789''"
proof -
  have "set (replicate (6 - length (str_nat n)) CHR ''0'') \<subseteq> set ''0123456789''"
    by auto
  then show ?thesis
    using str_nat_digits [of n] unfolding format_06d_def Let_def set_append by blast
qed

text \<open>
  C4. \<open>issue\<close> stores every OTP with a TTL. Given the draw \<open>n\<close> of
  \<open>secrets.randbelow(1_000_000)\<close> (so \<open>n < 1000000\<close>), the plain code is \<open>n\<close>
  zero-padded to exactly 6 decimal digits; under the key \<open>otp:{email}:{purpose}\<close> the
  cache then holds the JSON object with fields code_hash, attempts = 0, verified = False,
  created_at, purpose and email, with timeout \<open>ttl_minutes * 60\<close> seconds, where
  \<open>ttl_minutes\<close> defaults to 10; no other key changes; and the call returns that JSON
  string together with the plain code.
\<close>

theorem issue_stores_otp:
  assumes "n < 1000000"
  shows "let ((doc, code), c') = issue pbkdf2_hmac n salt created_at email purpose ttl_minutes c;
             otp_data = JObj
               [(''code_hash'', JStr (otp_hash pbkdf2_hmac salt code)),
                (''attempts'', JInt 0),
                (''verified'', JBool False),
                (''created_at'', JStr created_at),
                (''purpose'', JStr purpose),
                (''email'', JStr email)]
         in code = format_06d n \<and> length code = 6 \<and> set code \<subseteq> set ''0123456789''
            \<and> doc = json_dumps otp_data
            \<and> c' (''otp:'' @ email @ '':'' @ purpose)
                 = Some (doc, Some ((case ttl_minutes of None \<Rightarrow> 10 | Some t \<Rightarrow> t) * 60))
            \<and> (\<forall>k. k \<noteq> ''otp:'' @ email @ '':'' @ purpose \<longrightarrow> c' k = c k)"
  using format_06d_six [OF assms] format_06d_digits [of n]
  by (simp add: issue_def Let_def cache_set_def generate_key_def DEFAULT_TTL_MINUTES_def
      split: option.splits)

theorem issue_stores_otp_witness:
  "(42917::nat) < 1000000 \<and>
   issue toy_kdf 42917 ''ab'' ''2025-01-01T00:00:00+00:00'' ''a@b.c'' ''signup'' None Map.empty
     = ((JsonText (JObj
          [(''code_hash'', JStr (otp_hash toy_kdf ''ab'' ''042917'')),
           (''attempts'', JInt 0),
           (''verified'', JBool False),
           (''created_at'', JStr ''2025-01-01T00:00:00+00:00''),
           (''purpose'', JStr ''signup''),
           (''email'', JStr ''a@b.c'')]), ''042917''),
        [''otp:a@b.c:signup'' \<mapsto> (JsonText (JObj
          [(''code_hash'', JStr (otp_hash toy_kdf ''ab'' ''042917'')),
           (''attempts'', JInt 0),
           (''verified'', JBool False),
           (''created_at'', JStr ''2025-01-01T00:00:00+00:00''),
           (''purpose'', JStr ''signup''),
           (''email'', JStr ''a@b.c'')]), Some 600)])"
proof -
  have h: "(42917::nat) < 1000000" by simp
  have f: "format_06d 42917 = ''042917''"
    by (simp add: format_06d_def str_nat.simps)
  show ?thesis
    using h issue_stores_otp [OF h, of toy_kdf "''ab''" "''2025-01-01T00:00:00+00:00''"
        "''a@b.c''" "''signup''" None Map.empty]
    by (simp add: issue_def Let_def f cache_set_def generate_key_def json_dumps_def
        DEFAULT_TTL_MINUTES_def)
qed

section \<open>Properties of verifying an OTP\<close>










section \<open>Properties of the in-memory cache\<close>

text \<open>
  C6. TTL round trip of the in-memory cache. After \<open>set_cached_data symbol data\<close> at time
  \<open>t0\<close>, a \<open>get_cached_data symbol max_age_minutes\<close> at time \<open>t1\<close> whose age
  \<open>t1 - t0\<close> is at most \<open>max_age_minutes\<close> minutes returns exactly the stored data and
  leaves the cache as it is (so any later call sees the same entry); once the age exceeds
  \<open>max_age_minutes\<close> minutes it returns None and removes both the data entry and its
  timestamp, touching no other symbol; and a symbol that was never stored returns None.
\<close>

theorem cache_ttl_roundtrip:
  fixes c :: "'d mem_cache"
  shows "(t1 - t0 \<le> timedelta_minutes m \<longrightarrow>
            get_cached_data symbol m t1 (set_cached_data symbol data t0 c)
              = (Some data, set_cached_data symbol data t0 c))
       \<and> (t1 - t0 > timedelta_minutes m \<longrightarrow>
            (let (r, c') = get_cached_data symbol m t1 (set_cached_data symbol data t0 c)
             in r = None \<and> cache c' symbol = None \<and> cache_timestamps c' symbol = None
                \<and> (\<forall>k. k \<noteq> symbol \<longrightarrow>
                      cache c' k = cache c k \<and> cache_timestamps c' k = cache_timestamps c k)))
       \<and> (cache c symbol = None \<longrightarrow> get_cached_data symbol m t1 c = (None, c))
       \<and> get_cached_data symbol m t1 (empty_cache :: 'd mem_cache) = (None, empty_cache)"
  by (simp add: get_cached_data_def set_cached_data_def empty_cache_def Let_def)

theorem cache_ttl_roundtrip_witness:
  "(900000000 - 0 \<le> timedelta_minutes 15 \<and>
      get_cached_data ''AAPL'' 15 900000000 (set_cached_data ''AAPL'' (1::nat) 0 empty_cache)
        = (Some 1, set_cached_data ''AAPL'' 1 0 empty_cache))
   \<and> (900000001 - 0 > timedelta_minutes 15 \<and>
      fst (get_cached_data ''AAPL'' 15 900000001 (set_cached_data ''AAPL'' (1::nat) 0 empty_cache))
        = None)
   \<and> (cache (empty_cache :: nat mem_cache) ''MSFT'' = None \<and>
      get_cached_data ''MSFT'' 15 0 (empty_cache :: nat mem_cache) = (None, empty_cache))"
  using cache_ttl_roundtrip [of 900000000 0 15 "''AAPL''" "1::nat" empty_cache]
        cache_ttl_roundtrip [of 900000001 0 15 "''AAPL''" "1::nat" empty_cache]
        cache_ttl_roundtrip [of 0 0 15 "''MSFT''" "1::nat" "empty_cache :: nat mem_cache"]
  by (simp add: timedelta_minutes_def empty_cache_def split: prod.splits)

section \<open>Properties of requesting a token\<close>

lemma post_trace: "post E req w = (r, w') \<Longrightarrow> trace w' = trace w @ [Posted req]"
  by (auto simp: post_def split: prod.splits)

lemma cache_token_trace: "trace (cache_token E token expires_in expires_at w) = trace w"
  by (simp add: cache_token_def redis_set_def)

lemma cache_token_down:
  "\<not> cache_up w \<Longrightarrow> cache_token E token expires_in expires_at w = w"
  by (simp add: cache_token_def redis_set_def)

lemma token_from_response_trace:
  "trace (snd (token_from_response E token_data w)) = trace w"
  by (simp add: token_from_response_def cache_token_trace split: sum.splits)

lemma token_from_response_ok:
  "fst (token_from_response E token_data w) = Inr token \<longleftrightarrow>
     dict_get token_data ''access_token'' JNull = Inr token \<and> truthy token
     \<and> (\<exists>expires_in expires_at.
           dict_get token_data ''expires_in'' (JInt 86400) = Inr expires_in
           \<and> expiry_time (clock w) expires_in = Inr expires_at)"
  by (auto simp: token_from_response_def split: sum.splits)

lemma request_try_trace:
  "trace (snd (request_try E self w)) = trace w @ [Posted (token_request self)]"
proof -
  obtain r w1 where p: "post E (token_request self) w = (r, w1)"
    by (cases "post E (token_request self) w")
  show ?thesis
    using post_trace [OF p]
    by (cases r) (simp_all add: request_try_def p token_from_response_trace split: option.splits)
qed

lemma request_new_token_trace:
  "trace (snd (request_new_token E self w)) = trace w @ [Posted (token_request self)]"
  using request_try_trace [of E self w]
  by (auto simp: request_new_token_def split: prod.splits sum.splits)

lemma request_new_token_direct_eq:
  "request_new_token_direct E self w = request_new_token E self w"
  by (simp add: request_new_token_direct_def request_new_token_def)

lemma request_new_token_ok:
  assumes "post E (token_request self) w = (response, w1)"
  shows "fst (request_new_token E self w) = Inr token \<longleftrightarrow>
     (\<exists>status_code token_data expires_in expires_at.
        response = Response status_code (Some token_data)
        \<and> \<not> (400 \<le> status_code \<and> status_code < 600)
        \<and> dict_get token_data ''access_token'' JNull = Inr token \<and> truthy token
        \<and> dict_get token_data ''expires_in'' (JInt 86400) = Inr expires_in
        \<and> expiry_time (clock w1) expires_in = Inr expires_at)"
proof (cases response)
  case (Response status_code body)
  show ?thesis
  proof (cases "400 \<le> status_code \<and> status_code < 600")
    case True
    then show ?thesis
      using assms Response by (auto simp: request_new_token_def request_try_def)
  next
    case False
    show ?thesis
    proof (cases body)
      case None
      then show ?thesis
        using assms Response False by (auto simp: request_new_token_def request_try_def)
    next
      case (Some token_data)
      have "fst (request_new_token E self w) = Inr token \<longleftrightarrow>
            fst (token_from_response E token_data w1) = Inr token"
        using assms Response False Some
        by (auto simp: request_new_token_def request_try_def split: prod.splits sum.splits)
      then show ?thesis
        using Response False Some by (auto simp: token_from_response_ok)
    qed
  qed
qed (use assms in \<open>auto simp: request_new_token_def request_try_def\<close>)

lemma request_new_token_errors:
  assumes "post E (token_request self) w = (response, w1)"
  shows "(response = RaisesTimeout \<longrightarrow> request_new_token E self w = (Inl TokenTimeout, w1))"
    and "(response = RaisesConnectionError \<longrightarrow>
           request_new_token E self w = (Inl TokenConnection, w1))"
    and "(response = RaisesOther \<longrightarrow>
           request_new_token E self w = (Inl (TokenRequestFailed ReqOther), w1))"
    and "(response = Response status_code body \<and> 400 \<le> status_code \<and> status_code < 600 \<longrightarrow>
           request_new_token E self w =
             (Inl (if status_code = 403 then TokenForbidden
                   else if status_code = 429 then TokenRateLimited
                   else TokenHTTP (ReqHTTPError status_code)), w1))"
    and "(response = Response status_code None \<and> \<not> (400 \<le> status_code \<and> status_code < 600) \<longrightarrow>
           request_new_token E self w = (Inl (TokenRequestFailed ReqJSONDecodeError), w1))"
    and "(response = Response status_code (Some (JObj kvs))
            \<and> \<not> (400 \<le> status_code \<and> status_code < 600)
            \<and> (case map_of kvs ''access_token'' of None \<Rightarrow> True | Some v \<Rightarrow> \<not> truthy v) \<longrightarrow>
           request_new_token E self w
             = (Inl (TokenUnexpected (KISTokenError NoAccessToken)), w1))"
  using assms
  by (auto simp: request_new_token_def request_try_def except_clauses_def
      token_from_response_def dict_get_def split: option.splits)

lemma token_from_response_down:
  assumes "fst (token_from_response E token_data w) = Inr token" and "\<not> cache_up w"
  shows "token_from_response E token_data w = (Inr token, w)"
  using assms by (auto simp: token_from_response_def cache_token_down split: sum.splits if_splits)

lemma request_new_token_down:
  assumes "post E (token_request self) w = (response, w1)"
    and "fst (request_new_token E self w) = Inr token" and "\<not> cache_up w1"
  shows "request_new_token E self w = (Inr token, w1)"
proof -
  obtain status_code token_data where r: "response = Response status_code (Some token_data)"
    and ok: "\<not> (400 \<le> status_code \<and> status_code < 600)"
    using request_new_token_ok [OF assms(1), of token] assms(2) by blast
  have "fst (token_from_response E token_data w1) = Inr token"
    using assms(1,2) r ok
    by (auto simp: request_new_token_def request_try_def split: prod.splits sum.splits)
  then have "token_from_response E token_data w1 = (Inr token, w1)"
    using assms(3) by (rule token_from_response_down)
  then show ?thesis
    using assms(1) r ok by (simp add: request_new_token_def request_try_def)
qed

text \<open>
  C5, as the code has it. \<open>_request_new_token\<close> performs exactly one client-credentials
  POST to \<open>/oauth2/tokenP\<close>. It returns the token if and only if the request succeeds
  with a non-error status, the JSON body is an object with a truthy access_token, and the
  expiry \<open>datetime.now() + timedelta(seconds=expires_in - 300)\<close> can be computed from
  its expires_in (86400 when absent). In every other case it raises KISTokenError: with
  their own messages for a timeout, a connection error, status 403 and status 429, and
  also for another error status, another request failure, a body that is not JSON and a
  missing or empty access_token. When the token is returned and the cache cannot be
  written, the token is returned all the same and nothing else changes.
\<close>

theorem request_new_token_outcomes:
  assumes "post E (token_request self) w = (response, w1)"
  shows "(fst (request_new_token E self w) = Inr token \<longleftrightarrow>
           (\<exists>status_code token_data expires_in expires_at.
              response = Response status_code (Some token_data)
              \<and> \<not> (400 \<le> status_code \<and> status_code < 600)
              \<and> dict_get token_data ''access_token'' JNull = Inr token \<and> truthy token
              \<and> dict_get token_data ''expires_in'' (JInt 86400) = Inr expires_in
              \<and> expiry_time (clock w1) expires_in = Inr expires_at))
       \<and> (response = RaisesTimeout \<longrightarrow> request_new_token E self w = (Inl TokenTimeout, w1))
       \<and> (response = RaisesConnectionError \<longrightarrow>
            request_new_token E self w = (Inl TokenConnection, w1))
       \<and> (response = RaisesOther \<longrightarrow>
            request_new_token E self w = (Inl (TokenRequestFailed ReqOther), w1))
       \<and> (response = Response status_code body \<and> 400 \<le> status_code \<and> status_code < 600 \<longrightarrow>
            request_new_token E self w =
              (Inl (if status_code = 403 then TokenForbidden
                    else if status_code = 429 then TokenRateLimited
                    else TokenHTTP (ReqHTTPError status_code)), w1))
       \<and> (response = Response status_code None \<and> \<not> (400 \<le> status_code \<and> status_code < 600) \<longrightarrow>
            request_new_token E self w = (Inl (TokenRequestFailed ReqJSONDecodeError), w1))
       \<and> (response = Response status_code (Some (JObj kvs))
            \<and> \<not> (400 \<le> status_code \<and> status_code < 600)
            \<and> (case map_of kvs ''access_token'' of None \<Rightarrow> True | Some v \<Rightarrow> \<not> truthy v) \<longrightarrow>
            request_new_token E self w
              = (Inl (TokenUnexpected (KISTokenError NoAccessToken)), w1))
       \<and> trace (snd (request_new_token E self w)) = trace w @ [Posted (token_request self)]
       \<and> url (token_request self) = base_url self @ ''/oauth2/tokenP''
       \<and> grant_type (token_request self) = ''client_credentials''
       \<and> (fst (request_new_token E self w) = Inr token \<and> \<not> cache_up w1 \<longrightarrow>
            request_new_token E self w = (Inr token, w1))"
proof -
  note errs = request_new_token_errors [OF assms]
  show ?thesis
    apply (intro conjI)
              apply (rule request_new_token_ok [OF assms])
             apply (rule errs(1))
            apply (rule errs(2))
           apply (rule errs(3))
          apply (rule errs(4))
         apply (rule errs(5))
        apply (rule errs(6))
       apply (rule request_new_token_trace)
      apply (simp add: token_request_def)
     apply (simp add: token_request_def)
    apply (blast intro: request_new_token_down [OF assms])
    done
qed

theorem request_new_token_outcomes_witness:
  "request_new_token (env_answering (Response 200 (Some (JObj [(''access_token'', JStr ''tok'')]))))
     demo_manager (quiet_world\<lparr>cache_up := False\<rparr>)
     = (Inr (JStr ''tok''),
        quiet_world\<lparr>cache_up := False, trace := [Posted (token_request demo_manager)]\<rparr>)
   \<and> request_new_token (env_answering (Response 403 None)) demo_manager quiet_world
     = (Inl TokenForbidden, quiet_world\<lparr>trace := [Posted (token_request demo_manager)]\<rparr>)
   \<and> request_new_token (env_answering (Response 429 None)) demo_manager quiet_world
     = (Inl TokenRateLimited, quiet_world\<lparr>trace := [Posted (token_request demo_manager)]\<rparr>)
   \<and> request_new_token (env_answering RaisesTimeout) demo_manager quiet_world
     = (Inl TokenTimeout, quiet_world\<lparr>trace := [Posted (token_request demo_manager)]\<rparr>)"
proof -
  have p: "post (env_answering r) (token_request demo_manager) w
      = (r, w\<lparr>trace := trace w @ [Posted (token_request demo_manager)]\<rparr>)" for r w
    by (simp add: post_def env_answering_def)
  have ok: "fst (request_new_token
      (env_answering (Response 200 (Some (JObj [(''access_token'', JStr ''tok'')]))))
      demo_manager (quiet_world\<lparr>cache_up := False\<rparr>)) = Inr (JStr ''tok'')"
    by (simp add: request_new_token_def request_try_def p token_from_response_def dict_get_def
        expiry_time_def py_int_def timedelta_seconds_def datetime_add_def TOKEN_BUFFER_TIME_def
        quiet_world_def)
  show ?thesis
    using request_new_token_outcomes [OF p, of
        "Response 200 (Some (JObj [(''access_token'', JStr ''tok'')]))"
        "quiet_world\<lparr>cache_up := False\<rparr>" "JStr ''tok''" 200 None "[]"]
      request_new_token_outcomes [OF p, of "Response 403 None" quiet_world JNull 403 None "[]"]
      request_new_token_outcomes [OF p, of "Response 429 None" quiet_world JNull 429 None "[]"]
      request_new_token_outcomes [OF p, of RaisesTimeout quiet_world JNull 0 None "[]"]
      ok
    by (simp add: quiet_world_def)
qed

text \<open>
  The claim as stated fails: a 200 response whose body has a non-empty access_token but
  an expires_in that is a string raises KISTokenError (the TypeError of
  \<open>expires_in - self.TOKEN_BUFFER_TIME\<close> is caught by \<open>except Exception\<close>).
\<close>

theorem request_new_token_counterexample:
  "post (env_answering (Response 200
           (Some (JObj [(''access_token'', JStr ''tok''), (''expires_in'', JStr ''86400'')]))))
        (token_request demo_manager) quiet_world
     = (Response 200
          (Some (JObj [(''access_token'', JStr ''tok''), (''expires_in'', JStr ''86400'')])),
        quiet_world\<lparr>trace := [Posted (token_request demo_manager)]\<rparr>)
   \<and> \<not> (400 \<le> (200::nat) \<and> (200::nat) < 600)
   \<and> dict_get (JObj [(''access_token'', JStr ''tok''), (''expires_in'', JStr ''86400'')])
         ''access_token'' JNull = Inr (JStr ''tok'')
   \<and> truthy (JStr ''tok'')
   \<and> request_new_token (env_answering (Response 200
           (Some (JObj [(''access_token'', JStr ''tok''), (''expires_in'', JStr ''86400'')]))))
        demo_manager quiet_world
     = (Inl (TokenUnexpected TypeError),
        quiet_world\<lparr>trace := [Posted (token_request demo_manager)]\<rparr>)"
  by (simp add: request_new_token_def request_try_def post_def env_answering_def
      token_from_response_def dict_get_def expiry_time_def py_int_def except_clauses_def
      quiet_world_def)

section \<open>Properties of refreshing and getting the token\<close>

lemma redis_get_up:
  "cache_up w \<Longrightarrow> redis_get TOKEN_KEY w = Inr (cached_token w)"
  "cache_up w \<Longrightarrow> redis_get TOKEN_EXPIRES_KEY w = Inr (cached_expiry w)"
  by (simp_all add: redis_get_def cached_token_def cached_expiry_def)

lemma cached_token_valid_iff:
  "cached_token_valid E w token expires_str \<longleftrightarrow>
     truthy token \<and>
     (\<exists>s t. expires_str = JStr s \<and> s \<noteq> [] \<and> fromisoformat E s = Some (Naive t) \<and> clock w < t)"
  by (cases expires_str)
     (auto simp: cached_token_valid_def parse_expiry_def now_less_def
        split: option.splits pydatetime.splits)

lemma sleep_trace: "trace (sleep E seconds w) = trace w @ [Slept seconds]"
  by (simp add: sleep_def)

lemma after_waits_trace:
  "trace (after_waits E b w k) = trace w @ map (\<lambda>j. Slept (b * 2 ^ j)) [0..<k]"
  by (induction k) (simp_all add: sleep_trace)

lemma backoff_loop_trace:
  "\<exists>rest. trace (snd (backoff_loop E b retries w)) = trace w @ rest"
proof (induction retries arbitrary: w)
  case Nil
  then show ?case by simp
next
  case (Cons retry retries)
  let ?w1 = "sleep E (b * 2 ^ retry) w"
  obtain rest where "trace (snd (backoff_loop E b retries ?w1)) = trace ?w1 @ rest"
    using Cons [of ?w1] by blast
  then have "trace (snd (backoff_loop E b retries ?w1)) = trace w @ Slept (b * 2 ^ retry) # rest"
    by (simp add: sleep_trace)
  moreover have "trace ?w1 = trace w @ [Slept (b * 2 ^ retry)]"
    by (simp add: sleep_trace)
  ultimately show ?case
    by (auto simp: Let_def split: sum.splits)
qed

lemma backoff_found:
  assumes "i \<le> k" and "k < n"
    and "\<forall>j. i \<le> j \<and> j \<le> k \<longrightarrow> cache_up (after_waits E b w (Suc j))"
    and "\<forall>j. i \<le> j \<and> j < k \<longrightarrow> \<not> cache_valid E (after_waits E b w (Suc j))"
    and "cache_valid E (after_waits E b w (Suc k))"
  shows "backoff_loop E b [i..<n] (after_waits E b w i)
           = (Inr (Some (cached_token (after_waits E b w (Suc k)))), after_waits E b w (Suc k))"
  using assms
proof (induction "k - i" arbitrary: i)
  case 0
  then have ik: "i = k" by simp
  have l: "[k..<n] = k # [Suc k..<n]"
    using \<open>k < n\<close> by (rule upt_conv_Cons)
  have up: "cache_up (after_waits E b w (Suc k))"
    using 0 ik by simp
  show ?case
    using 0(6) up unfolding ik l
    by (simp add: Let_def redis_get_up cache_valid_def)
next
  case (Suc d)
  then have lt: "i < k" by simp
  then have l: "[i..<n] = i # [Suc i..<n]"
    using \<open>k < n\<close> by (simp add: upt_conv_Cons)
  have up: "cache_up (after_waits E b w (Suc i))"
    using Suc.prems lt by simp
  have inv: "\<not> cache_valid E (after_waits E b w (Suc i))"
    using Suc.prems lt by simp
  have "backoff_loop E b [Suc i..<n] (after_waits E b w (Suc i))
      = (Inr (Some (cached_token (after_waits E b w (Suc k)))), after_waits E b w (Suc k))"
  proof (rule Suc.hyps(1))
    show "d = k - Suc i" using Suc.hyps(2) by simp
    show "Suc i \<le> k" using lt by simp
    show "k < n" by fact
    show "\<forall>j. Suc i \<le> j \<and> j \<le> k \<longrightarrow> cache_up (after_waits E b w (Suc j))"
      using Suc.prems(3) by simp
    show "\<forall>j. Suc i \<le> j \<and> j < k \<longrightarrow> \<not> cache_valid E (after_waits E b w (Suc j))"
      using Suc.prems(4) by simp
    show "cache_valid E (after_waits E b w (Suc k))" by fact
  qed
  then show ?case
    using up inv unfolding l
    by (simp add: Let_def redis_get_up cache_valid_def [symmetric])
qed

lemma backoff_exhausted:
  assumes "i \<le> n"
    and "\<forall>j. i \<le> j \<and> j < n \<longrightarrow> cache_up (after_waits E b w (Suc j))"
    and "\<forall>j. i \<le> j \<and> j < n \<longrightarrow> \<not> cache_valid E (after_waits E b w (Suc j))"
  shows "backoff_loop E b [i..<n] (after_waits E b w i) = (Inr None, after_waits E b w n)"
  using assms
proof (induction "n - i" arbitrary: i)
  case 0
  then show ?case by simp
next
  case (Suc d)
  then have lt: "i < n" by simp
  then have l: "[i..<n] = i # [Suc i..<n]"
    by (simp add: upt_conv_Cons)
  have up: "cache_up (after_waits E b w (Suc i))"
    and inv: "\<not> cache_valid E (after_waits E b w (Suc i))"
    using Suc.prems lt by simp_all
  have "backoff_loop E b [Suc i..<n] (after_waits E b w (Suc i)) = (Inr None, after_waits E b w n)"
  proof (rule Suc.hyps(1))
    show "d = n - Suc i" using Suc.hyps(2) by simp
    show "Suc i \<le> n" using lt by simp
    show "\<forall>j. Suc i \<le> j \<and> j < n \<longrightarrow> cache_up (after_waits E b w (Suc j))"
      using Suc.prems(2) by simp
    show "\<forall>j. Suc i \<le> j \<and> j < n \<longrightarrow> \<not> cache_valid E (after_waits E b w (Suc j))"
      using Suc.prems(3) by simp
  qed
  then show ?case
    using up inv unfolding l
    by (simp add: Let_def redis_get_up cache_valid_def [symmetric])
qed

lemma request_new_token_prefix: "prefix (trace w) (trace (snd (request_new_token E self w)))"
  by (simp add: request_new_token_trace)

lemma backoff_loop_prefix: "prefix (trace w) (trace (snd (backoff_loop E b retries w)))"
  using backoff_loop_trace [of E b retries w] by (auto simp: prefix_def)

lemma raised_snd: "snd (raised r) = snd r"
  by (simp add: raised_def split: prod.splits sum.splits)

lemma refresh_locked_prefix: "prefix (trace w) (trace (snd (refresh_locked E self w)))"
proof -
  have d: "trace (case redis_delete TOKEN_LOCK_KEY w1 of Inl e \<Rightarrow> w1 | Inr w' \<Rightarrow> w') = trace w1"
    for w1
    by (simp add: redis_delete_def)
  show ?thesis
    using request_new_token_prefix [of w E self]
    by (auto simp: refresh_locked_def Let_def d raised_snd redis_get_def
        split: prod.splits sum.splits if_splits dest: arg_cong [where f = snd])
qed

lemma refresh_try_prefix:
  assumes "cache_up w"
  shows "\<exists>b. prefix (trace w @ [LockAttempt b]) (trace (snd (refresh_try E self w)))"
proof (cases "store w TOKEN_LOCK_KEY = None")
  case True
  let ?w1 = "w\<lparr>store := (store w)(TOKEN_LOCK_KEY \<mapsto> (JStr ''locked'', JInt LOCK_TIMEOUT)),
                 trace := trace w @ [LockAttempt True]\<rparr>"
  have "refresh_try E self w = refresh_locked E self ?w1"
    using assms True by (simp add: refresh_try_def redis_add_def)
  then show ?thesis
    using refresh_locked_prefix [of ?w1 E self] by auto
next
  case False
  let ?w1 = "lock_refused w"
  let ?l = "backoff_loop E 2 [0..<5] ?w1"
  have t: "refresh_try E self w =
      (case ?l of
         (Inl e, w2) \<Rightarrow> (Inl e, w2)
       | (Inr (Some token), w2) \<Rightarrow> (Inr token, w2)
       | (Inr None, w2) \<Rightarrow> raised (request_new_token_direct E self w2))"
    using assms False by (auto simp: refresh_try_def redis_add_def lock_refused_def)
  have p: "prefix (trace w @ [LockAttempt False]) (trace (snd ?l))"
    using backoff_loop_prefix [of ?w1 E 2 "[0..<5]"] by (simp add: lock_refused_def)
  obtain r w2 where l: "?l = (r, w2)" by (cases ?l)
  have "prefix (trace w @ [LockAttempt False]) (trace (snd (refresh_try E self w)))"
  proof (cases r)
    case (Inl e)
    then show ?thesis using p l t by simp
  next
    case (Inr found)
    show ?thesis
    proof (cases found)
      case None
      have "prefix (trace w2) (trace (snd (request_new_token_direct E self w2)))"
        by (simp add: request_new_token_direct_eq request_new_token_prefix)
      then show ?thesis
        using p l t Inr None by (auto simp: raised_snd intro: prefix_order.trans)
    next
      case (Some token)
      then show ?thesis using p l t Inr by simp
    qed
  qed
  then show ?thesis by blast
qed

lemma refresh_token_prefix:
  assumes "cache_up w"
  shows "\<exists>b. prefix (trace w @ [LockAttempt b]) (trace (snd (refresh_token E self w)))"
proof -
  obtain b where b: "prefix (trace w @ [LockAttempt b]) (trace (snd (refresh_try E self w)))"
    using refresh_try_prefix [OF assms] by blast
  obtain r w' where t: "refresh_try E self w = (r, w')" by (cases "refresh_try E self w")
  have "prefix (trace w @ [LockAttempt b]) (trace (snd (refresh_token E self w)))"
  proof (cases r)
    case (Inl e)
    have "prefix (trace w') (trace (snd (request_new_token_direct E self w')))"
      by (simp add: request_new_token_direct_eq request_new_token_prefix)
    then show ?thesis
      using b t Inl by (auto simp: refresh_token_def intro: prefix_order.trans)
  next
    case (Inr token)
    then show ?thesis using b t by (simp add: refresh_token_def)
  qed
  then show ?thesis by blast
qed

lemma refresh_token_lock_held:
  assumes "cache_up w" and "store w TOKEN_LOCK_KEY \<noteq> None"
  shows "refresh_token E self w =
     (case backoff_loop E 2 [0..<5] (lock_refused w) of
        (Inl e, w2) \<Rightarrow> request_new_token_direct E self w2
      | (Inr (Some token), w2) \<Rightarrow> (Inr token, w2)
      | (Inr None, w2) \<Rightarrow>
          (case request_new_token_direct E self w2 of
             (Inl msg, w') \<Rightarrow> request_new_token_direct E self w'
           | (Inr token, w') \<Rightarrow> (Inr token, w')))"
  using assms
  by (auto simp: refresh_token_def refresh_try_def redis_add_def lock_refused_def raised_def
      split: prod.splits sum.splits option.splits)

text \<open>
  C1, as the code has it. When \<open>cache.add\<close> on the lock key is refused,
  \<open>_refresh_token\<close> retries with exponential backoff. A cached token is usable when it
  is truthy and its expiry string parses to an offset-naive datetime later than now; an
  expiry that does not parse, or that parses to an offset-aware datetime, is not usable
  (the ValueError or TypeError is swallowed). If the cache stays reachable and the first
  wait after which it holds a usable token is wait \<open>k\<close> (\<open>k\<close> from 0 to 4), the call
  returns that token right after that wait, having slept 2, 4, ..., \<open>2 * 2^k\<close> seconds
  and nothing else. If after none of the 5 waits the cache holds a usable token, it has
  slept 2, 4, 8, 16 and 32 seconds and falls back to \<open>_request_new_token_direct\<close>
  (called once more if it raises).
\<close>

theorem refresh_token_backoff:
  assumes "cache_up w" and "store w TOKEN_LOCK_KEY \<noteq> None"
  shows "(k < 5
          \<and> (\<forall>j\<le>k. cache_up (after_waits E 2 (lock_refused w) (Suc j)))
          \<and> (\<forall>j<k. \<not> cache_valid E (after_waits E 2 (lock_refused w) (Suc j)))
          \<and> cache_valid E (after_waits E 2 (lock_refused w) (Suc k)) \<longrightarrow>
            refresh_token E self w
              = (Inr (cached_token (after_waits E 2 (lock_refused w) (Suc k))),
                 after_waits E 2 (lock_refused w) (Suc k))
            \<and> trace (after_waits E 2 (lock_refused w) (Suc k))
                = trace w @ LockAttempt False # map (\<lambda>j. Slept (2 * 2 ^ j)) [0..<Suc k])
       \<and> ((\<forall>j<5. cache_up (after_waits E 2 (lock_refused w) (Suc j))
                   \<and> \<not> cache_valid E (after_waits E 2 (lock_refused w) (Suc j))) \<longrightarrow>
            refresh_token E self w
              = (case request_new_token_direct E self (after_waits E 2 (lock_refused w) 5) of
                   (Inl msg, w') \<Rightarrow> request_new_token_direct E self w'
                 | (Inr token, w') \<Rightarrow> (Inr token, w'))
            \<and> trace (after_waits E 2 (lock_refused w) 5)
                = trace w @ [LockAttempt False, Slept 2, Slept 4, Slept 8, Slept 16, Slept 32])"
proof (intro conjI impI)
  let ?obs = "after_waits E 2 (lock_refused w)"
  assume h: "k < 5 \<and> (\<forall>j\<le>k. cache_up (?obs (Suc j)))
      \<and> (\<forall>j<k. \<not> cache_valid E (?obs (Suc j))) \<and> cache_valid E (?obs (Suc k))"
  have "backoff_loop E 2 [0..<5] (?obs 0) = (Inr (Some (cached_token (?obs (Suc k)))), ?obs (Suc k))"
    by (rule backoff_found) (use h in auto)
  then show "refresh_token E self w = (Inr (cached_token (?obs (Suc k))), ?obs (Suc k))"
    by (simp add: refresh_token_lock_held [OF assms])
  show "trace (?obs (Suc k)) = trace w @ LockAttempt False # map (\<lambda>j. Slept (2 * 2 ^ j)) [0..<Suc k]"
    unfolding after_waits_trace by (simp add: lock_refused_def)
next
  let ?obs = "after_waits E 2 (lock_refused w)"
  assume h: "\<forall>j<5. cache_up (?obs (Suc j)) \<and> \<not> cache_valid E (?obs (Suc j))"
  have "backoff_loop E 2 [0..<5] (?obs 0) = (Inr None, ?obs 5)"
    by (rule backoff_exhausted) (use h in auto)
  then show "refresh_token E self w
      = (case request_new_token_direct E self (?obs 5) of
           (Inl msg, w') \<Rightarrow> request_new_token_direct E self w'
         | (Inr token, w') \<Rightarrow> (Inr token, w'))"
    by (simp add: refresh_token_lock_held [OF assms])
  have "[0..<5] = [0, 1, 2, 3, 4::nat]"
    by (simp add: upt_rec)
  then show "trace (?obs 5)
      = trace w @ [LockAttempt False, Slept 2, Slept 4, Slept 8, Slept 16, Slept 32]"
    unfolding after_waits_trace by (simp add: lock_refused_def)
qed

lemma key_simps:
  "TOKEN_KEY \<noteq> TOKEN_EXPIRES_KEY" "TOKEN_KEY \<noteq> TOKEN_LOCK_KEY"
  "TOKEN_EXPIRES_KEY \<noteq> TOKEN_LOCK_KEY" "TOKEN_EXPIRES_KEY \<noteq> TOKEN_KEY"
  "TOKEN_LOCK_KEY \<noteq> TOKEN_KEY" "TOKEN_LOCK_KEY \<noteq> TOKEN_EXPIRES_KEY"
  by (simp_all add: TOKEN_KEY_def TOKEN_EXPIRES_KEY_def TOKEN_LOCK_KEY_def)

lemma env_answering_waits:
  "store (after_waits (env_answering r) b w k) = store w
   \<and> cache_up (after_waits (env_answering r) b w k) = cache_up w"
  by (induction k) (simp_all add: sleep_def env_answering_def)

theorem refresh_token_backoff_witness:
  "refresh_token env_other_refreshes demo_manager lock_held_world
     = (Inr (JStr ''tok''),
        \<lparr>store = [TOKEN_LOCK_KEY \<mapsto> (JStr ''locked'', JInt 30),
                  TOKEN_KEY \<mapsto> (JStr ''tok'', JInt 86400),
                  TOKEN_EXPIRES_KEY \<mapsto> (JStr ''9999-12-31T23:59:59'', JInt 86400)],
         cache_up = True, clock = 63900000006,
         trace = [LockAttempt False, Slept 2, Slept 4]\<rparr>)
   \<and> refresh_token (env_answering (Response 200 (Some (JObj [(''access_token'', JStr ''tok'')]))))
       demo_manager lock_held_world
     = request_new_token_direct
         (env_answering (Response 200 (Some (JObj [(''access_token'', JStr ''tok'')]))))
         demo_manager
         \<lparr>store = [TOKEN_LOCK_KEY \<mapsto> (JStr ''locked'', JInt 30)],
          cache_up = True, clock = 63900000062,
          trace = [LockAttempt False, Slept 2, Slept 4, Slept 8, Slept 16, Slept 32]\<rparr>"
proof -
  let ?E = "env_other_refreshes"
  let ?w = "lock_held_world"
  let ?A = "env_answering (Response 200 (Some (JObj [(''access_token'', JStr ''tok'')])))"
  have up: "cache_up ?w" and held: "store ?w TOKEN_LOCK_KEY \<noteq> None"
    by (simp_all add: lock_held_world_def quiet_world_def)
  have w1: "after_waits ?E 2 (lock_refused ?w) (Suc 0)
      = \<lparr>store = [TOKEN_LOCK_KEY \<mapsto> (JStr ''locked'', JInt 30)],
         cache_up = True, clock = 63900000002, trace = [LockAttempt False, Slept 2]\<rparr>"
    by (simp add: sleep_def env_other_refreshes_def lock_refused_def lock_held_world_def
        quiet_world_def)
  have w2: "after_waits ?E 2 (lock_refused ?w) (Suc (Suc 0))
      = \<lparr>store = [TOKEN_LOCK_KEY \<mapsto> (JStr ''locked'', JInt 30),
                  TOKEN_KEY \<mapsto> (JStr ''tok'', JInt 86400),
                  TOKEN_EXPIRES_KEY \<mapsto> (JStr ''9999-12-31T23:59:59'', JInt 86400)],
         cache_up = True, clock = 63900000006, trace = [LockAttempt False, Slept 2, Slept 4]\<rparr>"
    unfolding after_waits.simps(2) [of _ _ _ "Suc 0"] w1
    by (simp add: sleep_def env_other_refreshes_def)
  have v1: "\<not> cache_valid ?E (after_waits ?E 2 (lock_refused ?w) (Suc 0))"
    unfolding w1
    by (simp add: cache_valid_def cached_token_valid_def cached_token_def key_simps)
  have v2: "cache_valid ?E (after_waits ?E 2 (lock_refused ?w) (Suc (Suc 0)))"
    unfolding w2
    by (simp add: cache_valid_def cached_token_valid_def cached_token_def cached_expiry_def
        key_simps parse_expiry_def now_less_def env_other_refreshes_def toy_fromisoformat_def)
  have t2: "cached_token (after_waits ?E 2 (lock_refused ?w) (Suc (Suc 0))) = JStr ''tok''"
    unfolding w2 by (simp add: cached_token_def key_simps)
  have h1: "1 < (5::nat)
      \<and> (\<forall>j\<le>1. cache_up (after_waits ?E 2 (lock_refused ?w) (Suc j)))
      \<and> (\<forall>j<1. \<not> cache_valid ?E (after_waits ?E 2 (lock_refused ?w) (Suc j)))
      \<and> cache_valid ?E (after_waits ?E 2 (lock_refused ?w) (Suc 1))"
    using v1 v2 w1 w2 by (auto simp: le_Suc_eq)
  have a: "cached_token_valid ?A w' JNull JNull = False" for w'
    by (simp add: cached_token_valid_def)
  have st: "store (after_waits ?A 2 (lock_refused ?w) k)
        = [TOKEN_LOCK_KEY \<mapsto> (JStr ''locked'', JInt 30)]"
    and cu: "cache_up (after_waits ?A 2 (lock_refused ?w) k)" for k
    using env_answering_waits [of "Response 200 (Some (JObj [(''access_token'', JStr ''tok'')]))"
        2 "lock_refused ?w" k]
    by (simp_all add: lock_refused_def lock_held_world_def quiet_world_def)
  have h2: "\<forall>j<5. cache_up (after_waits ?A 2 (lock_refused ?w) (Suc j))
      \<and> \<not> cache_valid ?A (after_waits ?A 2 (lock_refused ?w) (Suc j))"
    unfolding cache_valid_def cached_token_def cached_expiry_def st
    by (simp add: cu key_simps a del: after_waits.simps)
  have n5: "after_waits ?A 2 (lock_refused ?w) 5
      = \<lparr>store = [TOKEN_LOCK_KEY \<mapsto> (JStr ''locked'', JInt 30)],
          cache_up = True, clock = 63900000062,
          trace = [LockAttempt False, Slept 2, Slept 4, Slept 8, Slept 16, Slept 32]\<rparr>"
    by (simp add: eval_nat_numeral sleep_def env_answering_def lock_refused_def
        lock_held_world_def quiet_world_def)
  have ok: "fst (request_new_token_direct ?A demo_manager w') = Inr (JStr ''tok'')"
    if "0 \<le> clock w'" "clock w' < 100000000000" for w'
    using that
    by (simp add: request_new_token_direct_def request_try_def post_def env_answering_def
        token_from_response_def dict_get_def expiry_time_def py_int_def timedelta_seconds_def
        datetime_add_def TOKEN_BUFFER_TIME_def)
  have A: "refresh_token ?E demo_manager ?w
      = (Inr (cached_token (after_waits ?E 2 (lock_refused ?w) (Suc 1))),
         after_waits ?E 2 (lock_refused ?w) (Suc 1))"
    using refresh_token_backoff [OF up held, of 1 ?E demo_manager] h1 by blast
  have B: "refresh_token ?A demo_manager ?w
      = (case request_new_token_direct ?A demo_manager (after_waits ?A 2 (lock_refused ?w) 5) of
           (Inl msg, w') \<Rightarrow> request_new_token_direct ?A demo_manager w'
         | (Inr token, w') \<Rightarrow> (Inr token, w'))"
    using refresh_token_backoff [OF up held, of 0 ?A demo_manager] h2 by blast
  have C: "(case r of (Inl msg, w') \<Rightarrow> f w' | (Inr token, w') \<Rightarrow> (Inr token, w')) = r"
    if "fst r = Inr t" for r :: "(kis_msg + json) \<times> world" and f t
    using that by (cases r) (auto split: sum.splits)
  have "refresh_token ?A demo_manager ?w
      = request_new_token_direct ?A demo_manager (after_waits ?A 2 (lock_refused ?w) 5)"
    unfolding B by (rule C [OF ok]) (simp_all add: n5)
  then show ?thesis
    using A unfolding n5 One_nat_def w2 by (simp add: t2 [unfolded w2])
qed


lemma get_token_valid:
  assumes "cache_up w" and "cache_valid E w"
  shows "get_token E self w = (Inr (cached_token w), w)"
  using assms
  by (simp add: get_token_def get_token_try_def redis_get_up cache_valid_def)

lemma get_token_invalid:
  assumes "cache_up w" and "\<not> cache_valid E w"
  shows "get_token E self w =
     (case refresh_token E self w of
        (Inl msg, w') \<Rightarrow> request_new_token_direct E self w'
      | (Inr token, w') \<Rightarrow> (Inr token, w'))"
  using assms
  by (auto simp: get_token_def get_token_try_def redis_get_up cache_valid_def raised_def
      split: prod.splits sum.splits)

lemma cache_valid_iff:
  "cache_valid E w \<longleftrightarrow>
     truthy (cached_token w) \<and>
     (\<exists>s t. cached_expiry w = JStr s \<and> s \<noteq> [] \<and> fromisoformat E s = Some (Naive t)
        \<and> clock w < t)"
  by (simp add: cache_valid_def cached_token_valid_iff)

text \<open>
  C2, as the code has it. \<open>get_token\<close> is a cache-aside read. Whenever the cache
  (reachable) holds a truthy token and an expiry string that parses to an offset-naive
  datetime strictly later than now, \<open>get_token\<close> returns that token and the world is
  unchanged: no HTTP request, no sleep, no attempt on the lock, the cached token, expiry
  and lock keys as they were. The cache is usable exactly in that case; in every other
  case (token absent or empty, expiry absent, unparseable or offset-aware, expiry not in
  the future) \<open>get_token\<close> is \<open>_refresh_token\<close>, with the direct request as fallback
  when that raises, and \<open>_refresh_token\<close> begins with an attempt on the lock.
\<close>

theorem get_token_cache_aside:
  assumes "cache_up w"
  shows "(store w TOKEN_KEY = Some (token, t1) \<and> truthy token
          \<and> store w TOKEN_EXPIRES_KEY = Some (JStr s, t2) \<and> s \<noteq> []
          \<and> fromisoformat E s = Some (Naive t) \<and> clock w < t \<longrightarrow>
            get_token E self w = (Inr token, w))
       \<and> (cache_valid E w \<longleftrightarrow>
            truthy (cached_token w) \<and>
            (\<exists>s t. cached_expiry w = JStr s \<and> s \<noteq> [] \<and> fromisoformat E s = Some (Naive t)
               \<and> clock w < t))
       \<and> (\<not> cache_valid E w \<longrightarrow>
            get_token E self w =
              (case refresh_token E self w of
                 (Inl msg, w') \<Rightarrow> request_new_token_direct E self w'
               | (Inr token, w') \<Rightarrow> (Inr token, w'))
            \<and> (\<exists>b. prefix (trace w @ [LockAttempt b]) (trace (snd (refresh_token E self w)))))"
proof (intro conjI impI)
  assume h: "store w TOKEN_KEY = Some (token, t1) \<and> truthy token
      \<and> store w TOKEN_EXPIRES_KEY = Some (JStr s, t2) \<and> s \<noteq> []
      \<and> fromisoformat E s = Some (Naive t) \<and> clock w < t"
  then have "cached_token w = token" and "cache_valid E w"
    by (simp_all add: cache_valid_iff cached_token_def cached_expiry_def)
  then show "get_token E self w = (Inr token, w)"
    using get_token_valid [OF assms, of E self] by simp
next
  show "cache_valid E w \<longleftrightarrow>
     truthy (cached_token w) \<and>
     (\<exists>s t. cached_expiry w = JStr s \<and> s \<noteq> [] \<and> fromisoformat E s = Some (Naive t)
        \<and> clock w < t)"
    by (rule cache_valid_iff)
next
  assume "\<not> cache_valid E w"
  then show "get_token E self w =
     (case refresh_token E self w of
        (Inl msg, w') \<Rightarrow> request_new_token_direct E self w'
      | (Inr token, w') \<Rightarrow> (Inr token, w'))"
    by (rule get_token_invalid [OF assms])
next
  show "\<exists>b. prefix (trace w @ [LockAttempt b]) (trace (snd (refresh_token E self w)))"
    by (rule refresh_token_prefix [OF assms])
qed

theorem get_token_cache_aside_witness:
  "get_token (env_answering RaisesTimeout) demo_manager fresh_token_world
     = (Inr (JStr ''tok''), fresh_token_world)
   \<and> \<not> cache_valid (env_answering (Response 200 (Some (JObj [(''access_token'', JStr ''tok'')]))))
         quiet_world
   \<and> get_token (env_answering (Response 200 (Some (JObj [(''access_token'', JStr ''tok'')]))))
       demo_manager quiet_world
     = refresh_token (env_answering (Response 200 (Some (JObj [(''access_token'', JStr ''tok'')]))))
       demo_manager quiet_world
   \<and> fst (refresh_token
         (env_answering (Response 200 (Some (JObj [(''access_token'', JStr ''tok'')]))))
         demo_manager quiet_world) = Inr (JStr ''tok'')
   \<and> trace (snd (refresh_token
         (env_answering (Response 200 (Some (JObj [(''access_token'', JStr ''tok'')]))))
         demo_manager quiet_world))
     = [LockAttempt True, Posted (token_request demo_manager)]"
proof -
  let ?A = "env_answering (Response 200 (Some (JObj [(''access_token'', JStr ''tok'')])))"
  have up: "cache_up fresh_token_world" "cache_up quiet_world"
    by (simp_all add: fresh_token_world_def quiet_world_def)
  have h: "store fresh_token_world TOKEN_KEY = Some (JStr ''tok'', JInt 86400)
      \<and> truthy (JStr ''tok'')
      \<and> store fresh_token_world TOKEN_EXPIRES_KEY = Some (JStr ''9999-12-31T23:59:59'', JInt 86400)
      \<and> ''9999-12-31T23:59:59'' \<noteq> []
      \<and> fromisoformat (env_answering RaisesTimeout) ''9999-12-31T23:59:59''
          = Some (Naive 315537897599)
      \<and> clock fresh_token_world < 315537897599"
    by (simp add: fresh_token_world_def quiet_world_def key_simps env_answering_def
        toy_fromisoformat_def)
  have n: "\<not> cache_valid ?A quiet_world"
    by (simp add: cache_valid_def cached_token_valid_def cached_token_def quiet_world_def)
  have r: "refresh_token ?A demo_manager quiet_world
      = (Inr (JStr ''tok''),
         \<lparr>store = ([TOKEN_LOCK_KEY \<mapsto> (JStr ''locked'', JInt 30),
                    TOKEN_KEY \<mapsto> (JStr ''tok'', JInt 86400),
                    TOKEN_EXPIRES_KEY \<mapsto> (JStr ''some-iso-string'', JInt 86400)])
                  (TOKEN_LOCK_KEY := None),
          cache_up = True, clock = 63900000000,
          trace = [LockAttempt True, Posted (token_request demo_manager)]\<rparr>)"
    by (simp add: refresh_token_def refresh_try_def redis_add_def refresh_locked_def
        redis_get_def redis_delete_def cached_token_valid_def raised_def LOCK_TIMEOUT_def
        request_new_token_def request_try_def post_def env_answering_def
        token_from_response_def dict_get_def expiry_time_def py_int_def timedelta_seconds_def
        datetime_add_def TOKEN_BUFFER_TIME_def cache_token_def redis_set_def quiet_world_def
        key_simps)
  show ?thesis
    using get_token_cache_aside [OF up(1), of "JStr ''tok''" "JInt 86400" "''9999-12-31T23:59:59''"
        "JInt 86400" "env_answering RaisesTimeout" 315537897599 demo_manager] h
      get_token_cache_aside [OF up(2), of JNull JNull "[]" JNull ?A 0 demo_manager] n
    by (simp add: r)
qed

text \<open>
  C2 as stated fails. With a token and the expiry \<open>9999-12-31T23:59:59+00:00\<close> in the
  cache, an ISO datetime far later than now, \<open>get_token\<close> does not return the cached
  token: \<open>datetime.now() < expires_at\<close> raises TypeError for an offset-aware datetime,
  \<open>except (ValueError, TypeError)\<close> swallows it, and the call takes the lock and posts
  to the KIS server (three times here, since every request times out).
\<close>

theorem get_token_aware_counterexample:
  "cache_up aware_token_world
   \<and> store aware_token_world TOKEN_KEY = Some (JStr ''tok'', JInt 86400)
   \<and> store aware_token_world TOKEN_EXPIRES_KEY
       = Some (JStr ''9999-12-31T23:59:59+00:00'', JInt 86400)
   \<and> fromisoformat (env_answering RaisesTimeout) ''9999-12-31T23:59:59+00:00''
       = Some (Aware 315537897599)
   \<and> clock aware_token_world < 315537897599
   \<and> fst (get_token (env_answering RaisesTimeout) demo_manager aware_token_world)
       = Inl TokenTimeout
   \<and> trace (snd (get_token (env_answering RaisesTimeout) demo_manager aware_token_world))
       = [LockAttempt True, Posted (token_request demo_manager),
          Posted (token_request demo_manager), Posted (token_request demo_manager)]"
  by (simp add: get_token_def get_token_try_def refresh_token_def refresh_try_def
      redis_add_def refresh_locked_def redis_get_def redis_delete_def cached_token_valid_def
      parse_expiry_def now_less_def raised_def LOCK_TIMEOUT_def
      request_new_token_def request_new_token_direct_def request_try_def post_def
      env_answering_def toy_fromisoformat_def except_clauses_def
      aware_token_world_def quiet_world_def key_simps)

text \<open>
  C1 as stated fails. With the lock held elsewhere, another process stores a token with
  the expiry \<open>9999-12-31T23:59:59+00:00\<close> during the first wait. The loop does not
  return that token: the TypeError of the comparison is swallowed in each of the five
  rounds, and after sleeping 2, 4, 8, 16 and 32 seconds the call requests a new token.
\<close>

theorem refresh_token_aware_counterexample:
  "cache_up lock_held_world \<and> store lock_held_world TOKEN_LOCK_KEY \<noteq> None
   \<and> cached_token (after_waits env_other_stores_aware 2 (lock_refused lock_held_world) (Suc 0))
       = JStr ''tok''
   \<and> cached_expiry (after_waits env_other_stores_aware 2 (lock_refused lock_held_world) (Suc 0))
       = JStr ''9999-12-31T23:59:59+00:00''
   \<and> fromisoformat env_other_stores_aware ''9999-12-31T23:59:59+00:00''
       = Some (Aware 315537897599)
   \<and> clock (after_waits env_other_stores_aware 2 (lock_refused lock_held_world) (Suc 0))
       < 315537897599
   \<and> fst (refresh_token env_other_stores_aware demo_manager lock_held_world) = Inl TokenTimeout
   \<and> trace (snd (refresh_token env_other_stores_aware demo_manager lock_held_world))
       = [LockAttempt False, Slept 2, Slept 4, Slept 8, Slept 16, Slept 32,
          Posted (token_request demo_manager), Posted (token_request demo_manager)]"
proof -
  have n: "[0..<5] = [0, 1, 2, 3, 4::nat]"
    by (simp add: upt_rec)
  show ?thesis
    by (simp add: refresh_token_def refresh_try_def redis_add_def n sleep_def
        redis_get_def cached_token_valid_def parse_expiry_def now_less_def raised_def
        request_new_token_direct_def request_try_def post_def
        env_other_stores_aware_def toy_fromisoformat_def except_clauses_def
        lock_held_world_def quiet_world_def lock_refused_def cached_token_def cached_expiry_def
        key_simps Let_def)
qed

section \<open>Properties of the global token manager\<close>

lemma get_token_manager_set:
  "token_manager s = Some m \<Longrightarrow> get_token_manager environ s = (Inr m, s)"
  by (simp add: get_token_manager_def)

lemma get_token_manager_first:
  "get_token_manager environ s = (Inr m, s') \<Longrightarrow> token_manager s' = Some m"
  by (auto simp: get_token_manager_def split: option.splits sum.splits)

lemma get_token_manager_calls_set:
  "token_manager s = Some m \<Longrightarrow>
     get_token_manager_calls environs s = (replicate (length environs) (Inr m), s)"
  by (induction environs) (simp_all add: get_token_manager_set)

text \<open>
  C7. \<open>get_token_manager\<close> is a singleton accessor. Once a call has returned an instance,
  every later call, whatever the environment variables then are, returns that very
  instance (the same object identity) and leaves the module state as it is, so the call
  is idempotent. A first call, made while \<open>_token_manager\<close> is None, raises ValueError
  if KIS_APP_KEY or KIS_APP_SECRET is unset, and \<open>_token_manager\<close> stays None.
\<close>

theorem get_token_manager_singleton:
  "(get_token_manager environ s = (Inr m, s') \<longrightarrow>
      get_token_manager environ' s' = (Inr m, s')
      \<and> get_token_manager_calls environs s' = (replicate (length environs) (Inr m), s'))
   \<and> (token_manager s = None
       \<and> (environ ''KIS_APP_KEY'' = None \<or> environ ''KIS_APP_SECRET'' = None) \<longrightarrow>
      fst (get_token_manager environ s) = Inl ValueError
      \<and> token_manager (snd (get_token_manager environ s)) = None)"
proof (intro conjI impI)
  assume "get_token_manager environ s = (Inr m, s')"
  then have set: "token_manager s' = Some m"
    by (rule get_token_manager_first)
  show "get_token_manager environ' s' = (Inr m, s')"
    using set by (rule get_token_manager_set)
  show "get_token_manager_calls environs s' = (replicate (length environs) (Inr m), s')"
    using set by (rule get_token_manager_calls_set)
next
  assume h: "token_manager s = None
      \<and> (environ ''KIS_APP_KEY'' = None \<or> environ ''KIS_APP_SECRET'' = None)"
  then have "KISTokenManager_init environ (next_oid s) = Inl ValueError"
    by (auto simp: KISTokenManager_init_def getenv_def split: option.splits)
  then show "fst (get_token_manager environ s) = Inl ValueError"
    and "token_manager (snd (get_token_manager environ s)) = None"
    using h by (simp_all add: get_token_manager_def)
qed

theorem get_token_manager_singleton_witness:
  "get_token_manager [''KIS_APP_KEY'' \<mapsto> ''key'', ''KIS_APP_SECRET'' \<mapsto> ''secret'']
     \<lparr>token_manager = None, next_oid = 7\<rparr>
     = (Inr (demo_manager\<lparr>oid := 7\<rparr>),
        \<lparr>token_manager = Some (demo_manager\<lparr>oid := 7\<rparr>), next_oid = 8\<rparr>)
   \<and> get_token_manager Map.empty
       \<lparr>token_manager = Some (demo_manager\<lparr>oid := 7\<rparr>), next_oid = 8\<rparr>
     = (Inr (demo_manager\<lparr>oid := 7\<rparr>),
        \<lparr>token_manager = Some (demo_manager\<lparr>oid := 7\<rparr>), next_oid = 8\<rparr>)
   \<and> fst (get_token_manager [''KIS_APP_KEY'' \<mapsto> ''key'']
            \<lparr>token_manager = None, next_oid = 7\<rparr>) = Inl ValueError"
proof -
  have first: "get_token_manager [''KIS_APP_KEY'' \<mapsto> ''key'', ''KIS_APP_SECRET'' \<mapsto> ''secret'']
     \<lparr>token_manager = None, next_oid = 7\<rparr>
     = (Inr (demo_manager\<lparr>oid := 7\<rparr>),
        \<lparr>token_manager = Some (demo_manager\<lparr>oid := 7\<rparr>), next_oid = 8\<rparr>)"
    by (simp add: get_token_manager_def KISTokenManager_init_def getenv_def
        getenv_default_def demo_manager_def)
  show ?thesis
    using first
      get_token_manager_singleton [of
        "[''KIS_APP_KEY'' \<mapsto> ''key'', ''KIS_APP_SECRET'' \<mapsto> ''secret'']"
        "\<lparr>token_manager = None, next_oid = 7\<rparr>" "demo_manager\<lparr>oid := 7\<rparr>"
        "\<lparr>token_manager = Some (demo_manager\<lparr>oid := 7\<rparr>), next_oid = 8\<rparr>"
        Map.empty "[]"]
      get_token_manager_singleton [of "[''KIS_APP_KEY'' \<mapsto> ''key'']"
        "\<lparr>token_manager = None, next_oid = 7\<rparr>" demo_manager
        "\<lparr>token_manager = None, next_oid = 7\<rparr>" Map.empty "[]"]
    by simp
qed

section \<open>Properties of retry\_on\_429\<close>

lemma starts_with_iff: "starts_with p s \<longleftrightarrow> (\<exists>ys. s = p @ ys)"
  by (induction p s rule: starts_with.induct) auto

lemma contains_iff: "contains p s \<longleftrightarrow> (\<exists>xs ys. s = xs @ p @ ys)"
proof (induction s)
  case Nil
  then show ?case by auto
next
  case (Cons c cs)
  show ?case
  proof
    assume "contains p (c # cs)"
    then consider "starts_with p (c # cs)" | "contains p cs" by auto
    then show "\<exists>xs ys. c # cs = xs @ p @ ys"
    proof cases
      case 1
      then obtain ys where "c # cs = p @ ys" by (auto simp: starts_with_iff)
      then have "c # cs = [] @ p @ ys" by simp
      then show ?thesis by blast
    next
      case 2
      then obtain xs ys where "cs = xs @ p @ ys" using Cons by blast
      then have "c # cs = (c # xs) @ p @ ys" by simp
      then show ?thesis by blast
    qed
  next
    assume "\<exists>xs ys. c # cs = xs @ p @ ys"
    then obtain xs ys where e: "c # cs = xs @ p @ ys" by blast
    show "contains p (c # cs)"
    proof (cases xs)
      case Nil
      then have "starts_with p (c # cs)" using e by (auto simp: starts_with_iff)
      then show ?thesis by simp
    next
      case (Cons x xs')
      then have "cs = xs' @ p @ ys" using e by simp
      then have "contains p cs" using Cons.IH by blast
      then show ?thesis by simp
    qed
  qed
qed

lemma retry_stops:
  assumes "i \<le> k" and "int k \<le> max_retries"
    and "\<forall>j. i \<le> j \<and> j < k \<longrightarrow> rate_limited (fst (func (state_before b u pause func s j)))"
    and "\<not> rate_limited (fst (func (state_before b u pause func s k)))"
  shows "retry_attempts max_retries b u pause func [i..<nat (max_retries + 1)]
           (state_before b u pause func s i)
         = (returned (fst (func (state_before b u pause func s k))),
            map (retry_delay b u) [i..<k],
            snd (func (state_before b u pause func s k)))"
  using assms
proof (induction "k - i" arbitrary: i)
  case 0
  then have ik: "i = k" by simp
  have "k < nat (max_retries + 1)" using 0 by linarith
  then have l: "[k..<nat (max_retries + 1)] = k # [Suc k..<nat (max_retries + 1)]"
    by (rule upt_conv_Cons)
  obtain r s1 where f: "func (state_before b u pause func s k) = (r, s1)"
    by (cases "func (state_before b u pause func s k)")
  show ?case
    using 0(5) unfolding ik l
    by (cases r) (simp_all add: f rate_limited_def returned_def)
next
  case (Suc d)
  then have lt: "i < k" by simp
  then have "i < nat (max_retries + 1)" and im: "int i < max_retries"
    using Suc.prems by linarith+
  then have l: "[i..<nat (max_retries + 1)] = i # [Suc i..<nat (max_retries + 1)]"
    by (simp add: upt_conv_Cons)
  have l2: "[i..<k] = i # [Suc i..<k]"
    using lt by (simp add: upt_conv_Cons)
  obtain r s1 where f: "func (state_before b u pause func s i) = (r, s1)"
    by (cases "func (state_before b u pause func s i)")
  have "rate_limited r"
    using Suc.prems(3) lt f by (metis fst_conv le_refl)
  then obtain e where r: "r = Inl e" and e: "is_rate_limit_error e"
    by (cases r) (simp_all add: rate_limited_def)
  have "retry_attempts max_retries b u pause func [Suc i..<nat (max_retries + 1)]
           (state_before b u pause func s (Suc i))
         = (returned (fst (func (state_before b u pause func s k))),
            map (retry_delay b u) [Suc i..<k],
            snd (func (state_before b u pause func s k)))"
  proof (rule Suc.hyps(1))
    show "d = k - Suc i" using Suc.hyps(2) by simp
    show "Suc i \<le> k" using lt by simp
    show "int k \<le> max_retries" by fact
    show "\<forall>j. Suc i \<le> j \<and> j < k \<longrightarrow> rate_limited (fst (func (state_before b u pause func s j)))"
      using Suc.prems(3) by simp
    show "\<not> rate_limited (fst (func (state_before b u pause func s k)))" by fact
  qed
  then show ?case
    unfolding l l2 using e im
    by (simp add: f r retry_delay_def)
qed

lemma retry_exhausted:
  assumes "i \<le> nat max_retries" and "0 \<le> max_retries"
    and "\<forall>j. i \<le> j \<and> j \<le> nat max_retries \<longrightarrow>
           rate_limited (fst (func (state_before b u pause func s j)))"
  shows "retry_attempts max_retries b u pause func [i..<nat (max_retries + 1)]
           (state_before b u pause func s i)
         = (Inr None, map (retry_delay b u) [i..<nat max_retries],
            snd (func (state_before b u pause func s (nat max_retries))))"
  using assms
proof (induction "nat max_retries - i" arbitrary: i)
  case 0
  then have im: "i = nat max_retries" by simp
  have n: "nat (max_retries + 1) = Suc (nat max_retries)"
    using \<open>0 \<le> max_retries\<close> by linarith
  obtain r s1 where f: "func (state_before b u pause func s (nat max_retries)) = (r, s1)"
    by (cases "func (state_before b u pause func s (nat max_retries))")
  have "rate_limited r"
    using 0(4) im f by (metis fst_conv le_refl)
  then obtain e where r: "r = Inl e" and e: "is_rate_limit_error e"
    by (cases r) (simp_all add: rate_limited_def)
  show ?case
    unfolding im n using e \<open>0 \<le> max_retries\<close>
    by (simp add: f r)
next
  case (Suc d)
  then have lt: "i < nat max_retries" by simp
  then have "i < nat (max_retries + 1)" and im: "int i < max_retries"
    by linarith+
  then have l: "[i..<nat (max_retries + 1)] = i # [Suc i..<nat (max_retries + 1)]"
    by (simp add: upt_conv_Cons)
  have l2: "[i..<nat max_retries] = i # [Suc i..<nat max_retries]"
    using lt by (simp add: upt_conv_Cons)
  obtain r s1 where f: "func (state_before b u pause func s i) = (r, s1)"
    by (cases "func (state_before b u pause func s i)")
  have "rate_limited r"
    using Suc.prems(3) lt f by (metis fst_conv le_refl less_imp_le_nat)
  then obtain e where r: "r = Inl e" and e: "is_rate_limit_error e"
    by (cases r) (simp_all add: rate_limited_def)
  have "retry_attempts max_retries b u pause func [Suc i..<nat (max_retries + 1)]
           (state_before b u pause func s (Suc i))
         = (Inr None, map (retry_delay b u) [Suc i..<nat max_retries],
            snd (func (state_before b u pause func s (nat max_retries))))"
  proof (rule Suc.hyps(1))
    show "d = nat max_retries - Suc i" using Suc.hyps(2) by simp
    show "Suc i \<le> nat max_retries" using lt by simp
    show "0 \<le> max_retries" by fact
    show "\<forall>j. Suc i \<le> j \<and> j \<le> nat max_retries \<longrightarrow>
           rate_limited (fst (func (state_before b u pause func s j)))"
      using Suc.prems(3) by simp
  qed
  then show ?case
    unfolding l l2 using e im
    by (simp add: f r retry_delay_def)
qed


text \<open>
  C3. \<open>retry_on_429\<close> retries only rate-limit errors, with exponential backoff. An
  exception is a rate-limit error exactly when its lowercased message contains "429",
  "too many requests" or "rate limit". If the first \<open>k\<close> calls (\<open>k\<close> at most
  \<open>max_retries\<close>) raise rate-limit errors, the wrapper has slept
  \<open>base_delay * 2^j + jitter\<close> after call \<open>j\<close>, for each \<open>j < k\<close>; if call \<open>k\<close> then
  raises another exception, that exception is re-raised at once, and if it returns, its
  value is returned. If all \<open>max_retries + 1\<close> calls raise rate-limit errors, the wrapper
  has slept \<open>max_retries\<close> times and returns None instead of raising. A jitter in
  \<open>[0, 1)\<close> puts the delay of attempt \<open>k\<close> in \<open>[base_delay * 2^k, base_delay * 2^k + 1)\<close>.
\<close>

theorem retry_on_429_backoff:
  "(int k \<le> max_retries
      \<and> (\<forall>j<k. rate_limited (fst (func (state_before b u pause func s j))))
      \<and> fst (func (state_before b u pause func s k)) = Inl e \<and> \<not> is_rate_limit_error e \<longrightarrow>
    retry_on_429 max_retries b u pause func s
      = (Inl e, map (retry_delay b u) [0..<k], snd (func (state_before b u pause func s k))))
   \<and> (int k \<le> max_retries
      \<and> (\<forall>j<k. rate_limited (fst (func (state_before b u pause func s j))))
      \<and> fst (func (state_before b u pause func s k)) = Inr v \<longrightarrow>
    retry_on_429 max_retries b u pause func s
      = (Inr (Some v), map (retry_delay b u) [0..<k],
         snd (func (state_before b u pause func s k))))
   \<and> (0 \<le> max_retries
      \<and> (\<forall>j\<le>nat max_retries. rate_limited (fst (func (state_before b u pause func s j)))) \<longrightarrow>
    retry_on_429 max_retries b u pause func s
      = (Inr None, map (retry_delay b u) [0..<nat max_retries],
         snd (func (state_before b u pause func s (nat max_retries)))))
   \<and> retry_delay b u k = b * 2 ^ k + u k
   \<and> (0 \<le> u k \<and> u k < 1 \<longrightarrow>
        b * 2 ^ k \<le> retry_delay b u k \<and> retry_delay b u k < b * 2 ^ k + 1)
   \<and> (is_rate_limit_error e' \<longleftrightarrow>
        (\<exists>xs ys. lower (exc_str e') = xs @ ''429'' @ ys)
        \<or> (\<exists>xs ys. lower (exc_str e') = xs @ ''too many requests'' @ ys)
        \<or> (\<exists>xs ys. lower (exc_str e') = xs @ ''rate limit'' @ ys))"
proof (intro conjI impI)
  assume h: "int k \<le> max_retries
      \<and> (\<forall>j<k. rate_limited (fst (func (state_before b u pause func s j))))
      \<and> fst (func (state_before b u pause func s k)) = Inl e \<and> \<not> is_rate_limit_error e"
  then have "\<not> rate_limited (fst (func (state_before b u pause func s k)))"
    by (simp add: rate_limited_def)
  then have "retry_attempts max_retries b u pause func [0..<nat (max_retries + 1)]
           (state_before b u pause func s 0)
         = (returned (fst (func (state_before b u pause func s k))),
            map (retry_delay b u) [0..<k],
            snd (func (state_before b u pause func s k)))"
    using h by (intro retry_stops) auto
  then show "retry_on_429 max_retries b u pause func s
      = (Inl e, map (retry_delay b u) [0..<k], snd (func (state_before b u pause func s k)))"
    using h by (simp add: retry_on_429_def returned_def)
next
  assume h: "int k \<le> max_retries
      \<and> (\<forall>j<k. rate_limited (fst (func (state_before b u pause func s j))))
      \<and> fst (func (state_before b u pause func s k)) = Inr v"
  then have "\<not> rate_limited (fst (func (state_before b u pause func s k)))"
    by (simp add: rate_limited_def)
  then have "retry_attempts max_retries b u pause func [0..<nat (max_retries + 1)]
           (state_before b u pause func s 0)
         = (returned (fst (func (state_before b u pause func s k))),
            map (retry_delay b u) [0..<k],
            snd (func (state_before b u pause func s k)))"
    using h by (intro retry_stops) auto
  then show "retry_on_429 max_retries b u pause func s
      = (Inr (Some v), map (retry_delay b u) [0..<k],
         snd (func (state_before b u pause func s k)))"
    using h by (simp add: retry_on_429_def returned_def)
next
  assume h: "0 \<le> max_retries
      \<and> (\<forall>j\<le>nat max_retries. rate_limited (fst (func (state_before b u pause func s j))))"
  then have "retry_attempts max_retries b u pause func [0..<nat (max_retries + 1)]
           (state_before b u pause func s 0)
         = (Inr None, map (retry_delay b u) [0..<nat max_retries],
            snd (func (state_before b u pause func s (nat max_retries))))"
    by (intro retry_exhausted) auto
  then show "retry_on_429 max_retries b u pause func s
      = (Inr None, map (retry_delay b u) [0..<nat max_retries],
         snd (func (state_before b u pause func s (nat max_retries))))"
    by (simp add: retry_on_429_def)
next
  show "retry_delay b u k = b * 2 ^ k + u k"
    by (simp add: retry_delay_def)
next
  assume "0 \<le> u k \<and> u k < 1"
  then show "b * 2 ^ k \<le> retry_delay b u k" and "retry_delay b u k < b * 2 ^ k + 1"
    by (simp_all add: retry_delay_def)
next
  show "is_rate_limit_error e' \<longleftrightarrow>
        (\<exists>xs ys. lower (exc_str e') = xs @ ''429'' @ ys)
        \<or> (\<exists>xs ys. lower (exc_str e') = xs @ ''too many requests'' @ ys)
        \<or> (\<exists>xs ys. lower (exc_str e') = xs @ ''rate limit'' @ ys)"
    unfolding is_rate_limit_error_def Let_def contains_iff by (rule refl)
qed

theorem retry_on_429_backoff_witness:
  "retry_on_429 2 3 (\<lambda>k. 1 / 2) (\<lambda>delay calls. calls) always_429 0
     = (Inr None, [7 / 2, 13 / 2], 3)
   \<and> retry_on_429 2 3 (\<lambda>k. 1 / 2) (\<lambda>delay calls. calls) always_broken 0
     = (Inl (PyExc ''KeyError'' ''Close''), [], 1)
   \<and> (3 * 2 ^ 1 \<le> retry_delay 3 (\<lambda>k. 1 / 2) 1 \<and> retry_delay 3 (\<lambda>k. 1 / 2) 1 < 3 * 2 ^ 1 + 1)"
proof -
  have l: "lower ''429 Client Error: Too Many Requests'' = ''429 client error: too many requests''"
    by (simp add: lower_def lower_char_def)
  have rl: "is_rate_limit_error (PyExc ''HTTPError'' ''429 Client Error: Too Many Requests'')"
    by (simp add: is_rate_limit_error_def l)
  have nrl: "\<not> is_rate_limit_error (PyExc ''KeyError'' ''Close'')"
    by (simp add: is_rate_limit_error_def lower_def lower_char_def)
  have c: "state_before 3 (\<lambda>k. 1 / 2) (\<lambda>delay calls. calls) always_429 0 j = j" for j
    by (induction j) (simp_all add: always_429_def)
  have h1: "(0::int) \<le> 2 \<and> (\<forall>j\<le>nat 2. rate_limited
      (fst (always_429 (state_before 3 (\<lambda>k. 1 / 2) (\<lambda>delay calls. calls) always_429 0 j))))"
    by (simp add: always_429_def rate_limited_def rl del: state_before.simps)
  have h2: "int 0 \<le> 2 \<and> (\<forall>j<0. rate_limited
      (fst (always_broken (state_before 3 (\<lambda>k. 1 / 2) (\<lambda>delay calls. calls) always_broken 0 j))))
      \<and> fst (always_broken (state_before 3 (\<lambda>k. 1 / 2) (\<lambda>delay calls. calls) always_broken 0 0))
          = Inl (PyExc ''KeyError'' ''Close'')
      \<and> \<not> is_rate_limit_error (PyExc ''KeyError'' ''Close'')"
    by (simp add: always_broken_def nrl)
  have u: "(0::real) \<le> 1 / 2 \<and> (1::real) / 2 < 1" by simp
  have n2: "[0..<nat 2] = [0, 1]" by (simp add: upt_rec)
  have A: "retry_on_429 2 3 (\<lambda>k. 1 / 2) (\<lambda>delay calls. calls) always_429 0
      = (Inr None, map (retry_delay 3 (\<lambda>k. 1 / 2)) [0..<nat 2],
         snd (always_429 (state_before 3 (\<lambda>k. 1 / 2) (\<lambda>delay calls. calls) always_429 0 (nat 2))))"
    using retry_on_429_backoff [of 1 2 always_429 3 "\<lambda>k. 1 / 2" "\<lambda>delay calls. calls" 0
        "PyExc ''KeyError'' ''Close''" "()" "PyExc ''KeyError'' ''Close''"] h1
    by blast
  have B: "retry_on_429 2 3 (\<lambda>k. 1 / 2) (\<lambda>delay calls. calls) always_broken 0
      = (Inl (PyExc ''KeyError'' ''Close''), map (retry_delay 3 (\<lambda>k. 1 / 2)) [0..<0],
         snd (always_broken
           (state_before 3 (\<lambda>k. 1 / 2) (\<lambda>delay calls. calls) always_broken 0 0)))"
    using retry_on_429_backoff [of 0 2 always_broken 3 "\<lambda>k. 1 / 2" "\<lambda>delay calls. calls" 0
        "PyExc ''KeyError'' ''Close''" "()" "PyExc ''KeyError'' ''Close''"] h2
    by blast
  have C: "3 * 2 ^ 1 \<le> retry_delay 3 (\<lambda>k. 1 / 2) 1
      \<and> retry_delay 3 (\<lambda>k. 1 / 2) 1 < 3 * 2 ^ 1 + 1"
    using retry_on_429_backoff [of 1 2 always_429 3 "\<lambda>k. 1 / 2" "\<lambda>delay calls. calls" 0
        "PyExc ''KeyError'' ''Close''" "()" "PyExc ''KeyError'' ''Close''"] u
    by blast
  show ?thesis
    unfolding A B c n2 using C
    by (simp add: retry_delay_def always_429_def always_broken_def)
qed

section \<open>Properties of get\_stock\_data\<close>

lemma get_default_stock_data_keys: "has_stock_keys (get_default_stock_data symbol)"
proof -
  obtain price name sector where
    "(case map_of default_data symbol of
        None \<Rightarrow> (0, ''Unknown'', ''Unknown'') | Some d \<Rightarrow> d) = (price, name, sector)"
    by (cases "case map_of default_data symbol of
        None \<Rightarrow> (0::real, ''Unknown'', ''Unknown'') | Some d \<Rightarrow> d")
  then show ?thesis
    by (simp add: get_default_stock_data_def has_stock_keys_def stock_keys_def)
qed

lemma get_default_stock_data_unknown:
  "map_of default_data symbol = None \<Longrightarrow>
     get_default_stock_data symbol =
       [(''symbol'', PStr symbol), (''name'', PStr ''Unknown''), (''sector'', PStr ''Unknown''),
        (''price'', PFloat 0), (''open'', PFloat 0), (''high'', PFloat 0), (''low'', PFloat 0),
        (''volume'', PInt 0), (''previous_close'', PFloat 0), (''change'', PFloat 0),
        (''change_percent'', PFloat 0), (''date'', PStr ''N/A''),
        (''data_source'', PStr ''default'')]"
  by (simp add: get_default_stock_data_def)

lemma build_stock_data_keys: "build_stock_data symbol hist = Inr d \<Longrightarrow> has_stock_keys d"
  by (auto simp: build_stock_data_def has_stock_keys_def stock_keys_def Let_def
      split: if_splits option.splits)

lemma stock_data_try_keys:
  assumes "stock_data_try Y symbol s = (Inr d, s')"
  shows "has_stock_keys d \<and> cache (mem s') symbol = Some d"
  using assms
  by (auto simp: stock_data_try_def set_cached_data_def build_stock_data_keys
      split: if_splits prod.splits sum.splits)

text \<open>
  On a cache miss the undecorated function never raises and returns a dict with all the
  keys, which is then the cache entry; when the fetch fails, that dict is the default.
\<close>

lemma get_stock_data_body_miss:
  assumes "fst (get_cached_data symbol 15 (now s) (mem s)) = None"
  shows "\<exists>d s'. get_stock_data_body Y symbol s = (Inr d, s') \<and> has_stock_keys d
           \<and> cache (mem s') symbol = Some d
           \<and> ((\<exists>e. fst (stock_data_try Y symbol
                  (s\<lparr>mem := snd (get_cached_data symbol 15 (now s) (mem s))\<rparr>)) = Inl e)
                \<longrightarrow> d = get_default_stock_data symbol)"
proof -
  obtain m where g: "get_cached_data symbol 15 (now s) (mem s) = (None, m)"
    using assms by (cases "get_cached_data symbol 15 (now s) (mem s)") simp
  obtain r s1 where t: "stock_data_try Y symbol (s\<lparr>mem := m\<rparr>) = (r, s1)"
    by (cases "stock_data_try Y symbol (s\<lparr>mem := m\<rparr>)")
  show ?thesis
  proof (cases r)
    case (Inl e)
    then show ?thesis
      using g t
      by (simp add: get_stock_data_body_def Let_def get_default_stock_data_keys
          set_cached_data_def)
  next
    case (Inr d)
    then show ?thesis
      using g t stock_data_try_keys [of Y symbol "s\<lparr>mem := m\<rparr>" d s1]
      by (simp add: get_stock_data_body_def)
  qed
qed

lemma get_stock_data_body_total: "\<exists>d s'. get_stock_data_body Y symbol s = (Inr d, s')"
  by (auto simp: get_stock_data_body_def Let_def split: prod.splits option.splits sum.splits)

lemma retry_first_returns:
  assumes "func s = (Inr d, s')"
  shows "retry_on_429 2 b u pause func s = (Inr (Some d), [], s')"
proof -
  have "[0..<nat (2 + 1)] = [0, 1, 2]"
    by (simp add: upt_rec)
  then show ?thesis
    using assms by (simp add: retry_on_429_def)
qed

lemma time_sleep_nonneg:
  assumes "0 \<le> seconds"
  shows "\<exists>s'. time_sleep seconds s = Inr s' \<and> mem s' = mem s \<and> now s \<le> now s'
           \<and> last_api_call s' = last_api_call s"
proof -
  have "0 \<le> \<lfloor>seconds * 1000000\<rfloor>"
    using assms by simp
  then show ?thesis
    using assms by (simp add: time_sleep_def slept_for_def)
qed

lemma rate_limit_decorator_runs:
  assumes "rate_limit_window s \<le> now s"
  shows "\<exists>s0. rate_limit_decorator min_interval max_calls func s = func s0
           \<and> mem s0 = mem s \<and> now s \<le> now s0"
proof -
  define s1 where "s1 = (if now s - rate_limit_window s > timedelta_minutes 1
             then s\<lparr>api_call_count := 0, rate_limit_window := now s\<rparr> else s)"
  define wait_time where "wait_time = 60 - td_seconds (now s - rate_limit_window s1)"
  define r2 where "r2 = (if api_call_count s1 \<ge> max_calls
      then (case time_sleep (of_int wait_time) s1 of
              Inl e \<Rightarrow> Inl (e, s1)
            | Inr s' \<Rightarrow> Inr (s'\<lparr>api_call_count := 0, rate_limit_window := now s'\<rparr>))
      else Inr s1)"
  have m1: "mem s1 = mem s" "now s1 = now s" "last_api_call s1 = last_api_call s"
    by (simp_all add: s1_def)
  have "0 \<le> wait_time"
    using assms by (auto simp: wait_time_def s1_def td_seconds_def timedelta_minutes_def)
  then have "(0::real) \<le> of_int wait_time" by simp
  then obtain s' where sl: "time_sleep (of_int wait_time) s1 = Inr s'" "mem s' = mem s1"
    "now s1 \<le> now s'" "last_api_call s' = last_api_call s1"
    using time_sleep_nonneg [of "of_int wait_time" s1] by blast
  have "\<exists>s2. r2 = Inr s2 \<and> mem s2 = mem s \<and> now s \<le> now s2
      \<and> last_api_call s2 = last_api_call s"
    using sl m1 by (simp add: r2_def)
  then obtain s2 where s2: "r2 = Inr s2" "mem s2 = mem s" "now s \<le> now s2"
    "last_api_call s2 = last_api_call s"
    by blast
  define r3 where "r3 = (case last_api_call s2 of
        None \<Rightarrow> Inr s2
      | Some l \<Rightarrow>
          (if total_seconds (now s - l) < min_interval
           then (case time_sleep (min_interval - total_seconds (now s - l)) s2 of
                   Inl e \<Rightarrow> Inl (e, s2)
                 | Inr s' \<Rightarrow> Inr s')
           else Inr s2))"
  have "\<exists>s3. r3 = Inr s3 \<and> mem s3 = mem s \<and> now s \<le> now s3"
  proof (cases "last_api_call s2")
    case None
    then show ?thesis using s2(2,3) by (simp add: r3_def)
  next
    case (Some l)
    show ?thesis
    proof (cases "total_seconds (now s - l) < min_interval")
      case True
      then have "0 \<le> min_interval - total_seconds (now s - l)" by simp
      then obtain s' where "time_sleep (min_interval - total_seconds (now s - l)) s2 = Inr s'"
        "mem s' = mem s2" "now s2 \<le> now s'"
        using time_sleep_nonneg [of "min_interval - total_seconds (now s - l)" s2] by blast
      then show ?thesis using s2(2,3) Some True by (simp add: r3_def)
    next
      case False
      then show ?thesis using s2(2,3) Some by (simp add: r3_def)
    qed
  qed
  then obtain s3 where s3: "r3 = Inr s3" "mem s3 = mem s" "now s \<le> now s3"
    by blast
  have "rate_limit_decorator min_interval max_calls func s
      = (case r2 of
           Inl (e, s') \<Rightarrow> (Inl e, s')
         | Inr s2 \<Rightarrow>
             (case (case last_api_call s2 of
                      None \<Rightarrow> Inr s2
                    | Some l \<Rightarrow>
                        (if total_seconds (now s - l) < min_interval
                         then (case time_sleep (min_interval - total_seconds (now s - l)) s2 of
                                 Inl e \<Rightarrow> Inl (e, s2)
                               | Inr s' \<Rightarrow> Inr s')
                         else Inr s2)) of
                Inl (e, s') \<Rightarrow> (Inl e, s')
              | Inr s3 \<Rightarrow>
                  func (s3\<lparr>last_api_call := Some (now s3),
                           api_call_count := api_call_count s3 + 1\<rparr>)))"
    by (simp only: rate_limit_decorator_def Let_def r2_def wait_time_def s1_def)
  also have "\<dots> = func (s3\<lparr>last_api_call := Some (now s3),
      api_call_count := api_call_count s3 + 1\<rparr>)"
    using s3(1) by (simp add: s2(1) r3_def)
  finally show ?thesis
    using s3 by (intro exI [of _ "s3\<lparr>last_api_call := Some (now s3),
        api_call_count := api_call_count s3 + 1\<rparr>"]) simp
qed

text \<open>
  When the clock has not gone back behind the rate-limit window, the decorated function
  never raises and never returns None: it returns a dict.
\<close>

lemma get_stock_data_total:
  assumes "rate_limit_window s \<le> now s"
  shows "\<exists>d s'. get_stock_data Y symbol s = (Inr (Some d), s')"
proof -
  let ?f = "\<lambda>s'. let (r, delays, s'') =
                   retry_on_429 2 3 (uniform_0_1 Y) slept_for (get_stock_data_body Y symbol) s'
             in (r, s'')"
  obtain s0 where "rate_limit_decorator 5 5 ?f s = ?f s0"
    using rate_limit_decorator_runs [OF assms, of 5 5 ?f] by blast
  moreover obtain d s' where "get_stock_data_body Y symbol s0 = (Inr d, s')"
    using get_stock_data_body_total by blast
  ultimately have "get_stock_data Y symbol s = (Inr (Some d), s')"
    by (simp add: get_stock_data_def retry_first_returns)
  then show ?thesis by blast
qed

text \<open>
  With no entry for the symbol in the cache, the decorated function returns a dict with
  all the keys and stores it in the cache; when the library is unavailable, that dict is
  the default.
\<close>

lemma get_stock_data_miss:
  assumes "rate_limit_window s \<le> now s" and "cache (mem s) symbol = None"
  shows "\<exists>d s'. get_stock_data Y symbol s = (Inr (Some d), s') \<and> has_stock_keys d
           \<and> cache (mem s') symbol = Some d
           \<and> (\<not> YF_AVAILABLE Y \<longrightarrow> d = get_default_stock_data symbol)"
proof -
  let ?f = "\<lambda>s'. let (r, delays, s'') =
                   retry_on_429 2 3 (uniform_0_1 Y) slept_for (get_stock_data_body Y symbol) s'
             in (r, s'')"
  obtain s0 where r: "rate_limit_decorator 5 5 ?f s = ?f s0" and m: "mem s0 = mem s"
    using rate_limit_decorator_runs [OF assms(1), of 5 5 ?f] by blast
  have g: "get_cached_data symbol 15 (now s0) (mem s0) = (None, mem s0)"
    using assms(2) m by (simp add: get_cached_data_def)
  then obtain d s' where b: "get_stock_data_body Y symbol s0 = (Inr d, s')"
    and k: "has_stock_keys d" "cache (mem s') symbol = Some d"
    and f: "(\<exists>e. fst (stock_data_try Y symbol
                  (s0\<lparr>mem := snd (get_cached_data symbol 15 (now s0) (mem s0))\<rparr>)) = Inl e)
                \<longrightarrow> d = get_default_stock_data symbol"
    using get_stock_data_body_miss [of symbol s0 Y] by auto
  have "\<not> YF_AVAILABLE Y \<longrightarrow> d = get_default_stock_data symbol"
    using f by (simp add: stock_data_try_def)
  moreover have "get_stock_data Y symbol s = (Inr (Some d), s')"
    using r b by (simp add: get_stock_data_def retry_first_returns)
  ultimately show ?thesis
    using k by blast
qed

text \<open>
  C10 fails on the code. After \<open>get_multiple_stocks_parallel\<close> has cached its
  standardized response for AAPL, \<open>get_stock_data("AAPL")\<close> within the next 15 minutes
  returns that cache entry: a dict with the keys title, market, price, change, changeRate
  and sign, without symbol, name, sector, open, high, low, volume, previous_close,
  change_percent, date and data_source.
\<close>

theorem get_stock_data_cache_collision:
  "fst (get_stock_data yahoo_down ''AAPL''
          (cache_standardized_stock ''AAPL'' ''220.00'' ''1.00'' ''0.46'' ''1'' started))
     = Inr (Some [(''title'', PStr ''Apple Inc''), (''market'', PStr ''US''),
                  (''price'', PStr ''220.00''), (''change'', PStr ''1.00''),
                  (''changeRate'', PStr ''0.46''), (''sign'', PStr ''1'')])
   \<and> \<not> has_stock_keys [(''title'', PStr ''Apple Inc''), (''market'', PStr ''US''),
                  (''price'', PStr ''220.00''), (''change'', PStr ''1.00''),
                  (''changeRate'', PStr ''0.46''), (''sign'', PStr ''1'')]
   \<and> map_of [(''title'', PStr ''Apple Inc''), (''market'', PStr ''US''),
                  (''price'', PStr ''220.00''), (''change'', PStr ''1.00''),
                  (''changeRate'', PStr ''0.46''), (''sign'', PStr ''1'')] ''symbol'' = None"
proof -
  have n: "[0..<3] = [0, 1, 2::nat]"
    by (simp add: upt_rec)
  have "fst (get_stock_data yahoo_down ''AAPL''
          (cache_standardized_stock ''AAPL'' ''220.00'' ''1.00'' ''0.46'' ''1'' started))
     = Inr (Some [(''title'', PStr ''Apple Inc''), (''market'', PStr ''US''),
                  (''price'', PStr ''220.00''), (''change'', PStr ''1.00''),
                  (''changeRate'', PStr ''0.46''), (''sign'', PStr ''1'')])"
    by (simp add: get_stock_data_def rate_limit_decorator_def retry_on_429_def n
        get_stock_data_body_def get_cached_data_def set_cached_data_def
        cache_standardized_stock_def create_standardized_response_def stock_name_def
        STOCK_SYMBOLS_def started_def empty_cache_def timedelta_minutes_def Let_def)
  then show ?thesis
    by (simp add: has_stock_keys_def stock_keys_def)
qed

end
